theory Spec2Isabelle
  imports Main "HOL-Library.Multiset" "HOL-Library.AList"
begin

section \<open>nmap2csv: the decoded scan document\<close>

text \<open>
  The structures of \<^verbatim>\<open>main.go\<close> that \<^verbatim>\<open>xml.Unmarshal\<close> fills. Go strings are byte
  strings, so they are \<^typ>\<open>string\<close> here. A missing attribute or element leaves the
  zero value: the empty string, the empty slice, \<open>0\<close>. The fields called \<^verbatim>\<open>Name\<close> and
  \<^verbatim>\<open>State\<close> carry the name of their struct, since a field name is a constant here.
\<close>

record Address =
  Addr :: string
  AddrType :: string
  Vendor :: string

record Hostname =
  Hostname_Name :: string

record State =
  State_State :: string

record Service =
  Service_Name :: string

record Port =
  Protocol :: string
  PortID :: int
  State :: State
  Service :: Service

record Host =
  Addresses :: "Address list"
  Hostnames :: "Hostname list"
  Ports :: "Port list"

record NmapRun =
  Hosts :: "Host list"

section \<open>The derived records\<close>

text \<open>
  The counters are Go \<^verbatim>\<open>int\<close>s that start at \<open>0\<close> and are only ever incremented, once
  per element of a slice held in memory, so they cannot wrap: they are \<^typ>\<open>nat\<close>.
\<close>

record HostInfo =
  HostInfo_Hostname :: string
  HostInfo_IPv4 :: string
  HostInfo_MAC :: string
  HostInfo_Vendor :: string
  HostInfo_CountOpen :: nat
  HostInfo_Ports :: string

record PortInfo =
  PortInfo_Key :: string
  PortInfo_Service :: string
  PortInfo_Count :: nat

record VendorInfo =
  VendorInfo_Name :: string
  VendorInfo_Count :: nat

section \<open>The library functions the program calls\<close>

subsection \<open>\<^verbatim>\<open>strconv.Itoa\<close>\<close>

definition digit_char :: "nat \<Rightarrow> char" where
  "digit_char d = ''0123456789'' ! d"

fun utoa :: "nat \<Rightarrow> string" where
  "utoa n = (if n < 10 then [digit_char n] else utoa (n div 10) @ [digit_char (n mod 10)])"

declare utoa.simps [simp del]

definition Itoa :: "int \<Rightarrow> string" where
  "Itoa i = (if i < 0 then CHR ''-'' # utoa (nat (- i)) else utoa (nat i))"

subsection \<open>\<^verbatim>\<open>strings.Split\<close> with a one-byte separator, \<^verbatim>\<open>strings.Join\<close>\<close>

text \<open>
  \<^verbatim>\<open>strings.Split(s, ",")\<close> cuts at every separator and keeps the empty pieces; on the
  empty string it returns one empty piece.
\<close>

fun Split :: "string \<Rightarrow> char \<Rightarrow> string list" where
  "Split [] sep = [[]]"
| "Split (c # cs) sep =
     (if c = sep then [] # Split cs sep
      else (case Split cs sep of
              [] \<Rightarrow> [[c]]
            | piece # pieces \<Rightarrow> (c # piece) # pieces))"

fun Join :: "string list \<Rightarrow> string \<Rightarrow> string" where
  "Join [] sep = []"
| "Join [e] sep = e"
| "Join (e # e' # elems) sep = e @ sep @ Join (e' # elems) sep"

subsection \<open>\<^verbatim>\<open>strings.TrimSpace\<close>\<close>

text \<open>
  \<^verbatim>\<open>TrimSpace\<close> removes the leading and the trailing white space, as Unicode defines it,
  from a UTF-8 string: the six ASCII characters tab, line feed, vertical tab, form feed,
  carriage return and space, and the code points U+0085, U+00A0, U+1680, U+2000 to
  U+200A, U+2028, U+2029, U+202F, U+205F and U+3000, which are the byte sequences of
  \<open>unicodeSpace\<close>. A byte that starts no such sequence stops the trimming.
\<close>

definition asciiSpace :: "char \<Rightarrow> bool" where
  "asciiSpace c = (c \<in> set [CHR 0x09, CHR 0x0A, CHR 0x0B, CHR 0x0C, CHR 0x0D, CHR 0x20])"

definition unicodeSpace :: "string list" where
  "unicodeSpace =
     [[CHR 0xC2, CHR 0x85], [CHR 0xC2, CHR 0xA0], [CHR 0xE1, CHR 0x9A, CHR 0x80]] @
     map (\<lambda>b. [CHR 0xE2, CHR 0x80, b])
       [CHR 0x80, CHR 0x81, CHR 0x82, CHR 0x83, CHR 0x84, CHR 0x85, CHR 0x86, CHR 0x87,
        CHR 0x88, CHR 0x89, CHR 0x8A, CHR 0xA8, CHR 0xA9, CHR 0xAF] @
     [[CHR 0xE2, CHR 0x81, CHR 0x9F], [CHR 0xE3, CHR 0x80, CHR 0x80]]"

text \<open>The width in bytes of the white space character a string starts with, \<open>0\<close> if none.\<close>

definition leadingSpace :: "string \<Rightarrow> nat" where
  "leadingSpace s =
     (case s of
        [] \<Rightarrow> 0
      | c # _ \<Rightarrow>
          if asciiSpace c then 1
          else (case filter (\<lambda>w. take (length w) s = w) unicodeSpace of
                  [] \<Rightarrow> 0
                | w # _ \<Rightarrow> length w))"

text \<open>The same for the character a string ends with.\<close>

definition trailingSpace :: "string \<Rightarrow> nat" where
  "trailingSpace s =
     (if s = [] then 0
      else if asciiSpace (last s) then 1
      else (case filter (\<lambda>w. length w \<le> length s \<and> drop (length s - length w) s = w)
                  unicodeSpace of
              [] \<Rightarrow> 0
            | w # _ \<Rightarrow> length w))"

function TrimLeft :: "string \<Rightarrow> string" where
  "TrimLeft s = (if leadingSpace s = 0 then s else TrimLeft (drop (leadingSpace s) s))"
  by pat_completeness auto
termination
  by (relation "measure length") (auto simp: leadingSpace_def split: list.splits)

function TrimRight :: "string \<Rightarrow> string" where
  "TrimRight s =
     (if trailingSpace s = 0 then s else TrimRight (take (length s - trailingSpace s) s))"
  by pat_completeness auto
termination
  by (relation "measure length") (auto simp: trailingSpace_def split: if_splits)

declare TrimLeft.simps [simp del] TrimRight.simps [simp del]

definition TrimSpace :: "string \<Rightarrow> string" where
  "TrimSpace s = TrimRight (TrimLeft s)"

subsection \<open>Go maps\<close>

text \<open>
  A Go map with string keys is an association list with distinct keys: \<^const>\<open>map_of\<close>
  reads a key, \<^const>\<open>AList.update\<close> stores one. The position of a key in the list is
  no part of the Go map: a \<^verbatim>\<open>range\<close> loop over a map visits the entries in an order that
  the language leaves open and that the runtime changes from one run to the next. So
  the order of a \<^verbatim>\<open>range\<close> loop is an argument of the model: \<open>range_map m es\<close> says
  that \<open>es\<close> is a sequence in which the loop may visit the entries of \<open>m\<close>.
\<close>

definition range_map :: "('k \<times> 'v) list \<Rightarrow> ('k \<times> 'v) list \<Rightarrow> bool" where
  "range_map m es = (mset es = mset m)"

subsection \<open>\<^verbatim>\<open>sort.Slice\<close>\<close>

text \<open>
  \<^verbatim>\<open>sort.Slice(x, less)\<close> reorders \<open>x\<close> so that no element is \<open>less\<close> than one before
  it. Its documentation gives no more: ``The sort is not guaranteed to be stable: equal
  elements may be reversed from their original order.'' So \<open>sort_Slice lt xs ys\<close> says
  that \<open>ys\<close> is a result the call may leave in the slice that held \<open>xs\<close>.
\<close>

definition sort_Slice :: "('a \<Rightarrow> 'a \<Rightarrow> bool) \<Rightarrow> 'a list \<Rightarrow> 'a list \<Rightarrow> bool" where
  "sort_Slice lt xs ys = (mset ys = mset xs \<and> sorted_wrt (\<lambda>a b. \<not> lt b a) ys)"

section \<open>Mode 1: \<^verbatim>\<open>-hostname -whereport\<close>\<close>

definition isOpen :: "Port \<Rightarrow> bool" where
  "isOpen p = (State_State (State p) = ''open'')"

text \<open>The loop that fills \<^verbatim>\<open>portSet\<close>, a \<^verbatim>\<open>map[string]bool\<close>; a missing key reads as false.\<close>

definition portSet_of :: "string list \<Rightarrow> (string \<times> bool) list" where
  "portSet_of ports = fold (\<lambda>p portSet. AList.update (TrimSpace p) True portSet) ports []"

definition portSet_get :: "(string \<times> bool) list \<Rightarrow> string \<Rightarrow> bool" where
  "portSet_get portSet k = (case map_of portSet k of None \<Rightarrow> False | Some b \<Rightarrow> b)"

definition host_hostname :: "Host \<Rightarrow> string" where
  "host_hostname h = (case Hostnames h of [] \<Rightarrow> [] | n # _ \<Rightarrow> Hostname_Name n)"

text \<open>The loop over the addresses, on the variables \<^verbatim>\<open>ipv4\<close>, \<^verbatim>\<open>mac\<close> and \<^verbatim>\<open>vendor\<close>.\<close>

definition addr_step :: "Address \<Rightarrow> string \<times> string \<times> string \<Rightarrow> string \<times> string \<times> string" where
  "addr_step a vars =
     (case vars of (ipv4, mac, vendor) \<Rightarrow>
        (if AddrType a = ''ipv4'' then Addr a else ipv4,
         if AddrType a = ''mac'' then Addr a else mac,
         if AddrType a = ''mac'' then Vendor a else vendor))"

definition addr_loop :: "Address list \<Rightarrow> string \<times> string \<times> string" where
  "addr_loop as = fold addr_step as ([], [], [])"

text \<open>The loop over the ports, on \<^verbatim>\<open>countOpen\<close>, \<^verbatim>\<open>match\<close> and \<^verbatim>\<open>openPort\<close>.\<close>

definition port_step ::
  "bool \<Rightarrow> (string \<times> bool) list \<Rightarrow> Port \<Rightarrow> nat \<times> bool \<times> string list \<Rightarrow> nat \<times> bool \<times> string list"
where
  "port_step showAllPort portSet p vars =
     (case vars of (countOpen, match, openPort) \<Rightarrow>
        if State_State (State p) = ''open'' then
          if showAllPort \<or> portSet_get portSet (Itoa (PortID p))
          then (countOpen + 1, True, openPort @ [Itoa (PortID p)])
          else (countOpen + 1, match, openPort)
        else (countOpen, match, openPort))"

definition port_loop ::
  "bool \<Rightarrow> (string \<times> bool) list \<Rightarrow> Port list \<Rightarrow> nat \<times> bool \<times> string list" where
  "port_loop showAllPort portSet ps = fold (port_step showAllPort portSet) ps (0, False, [])"

text \<open>The body of the loop over the hosts: \<^verbatim>\<open>results\<close> grows by one record if \<^verbatim>\<open>match\<close>.\<close>

definition host_step ::
  "bool \<Rightarrow> (string \<times> bool) list \<Rightarrow> Host \<Rightarrow> HostInfo list \<Rightarrow> HostInfo list" where
  "host_step showAllPort portSet h results =
     (case addr_loop (Addresses h) of (ipv4, mac, vendor) \<Rightarrow>
      case port_loop showAllPort portSet (Ports h) of (countOpen, match, openPort) \<Rightarrow>
        if match
        then results @
          [\<lparr>HostInfo_Hostname = host_hostname h, HostInfo_IPv4 = ipv4, HostInfo_MAC = mac,
            HostInfo_Vendor = vendor, HostInfo_CountOpen = countOpen,
            HostInfo_Ports = Join openPort '',''\<rparr>]
        else results)"

text \<open>The slice \<^verbatim>\<open>results\<close> as it is before \<^verbatim>\<open>sort.Slice\<close>.\<close>

definition hostname_results :: "string \<Rightarrow> Host list \<Rightarrow> HostInfo list" where
  "hostname_results wherePorts hosts =
     (let ports = Split wherePorts CHR '','';
          showAllPort = (length wherePorts = 0);
          portSet = portSet_of ports
      in fold (host_step showAllPort portSet) hosts [])"

definition HostInfo_less :: "HostInfo \<Rightarrow> HostInfo \<Rightarrow> bool" where
  "HostInfo_less a b = (HostInfo_CountOpen a > HostInfo_CountOpen b)"

definition hostname_mode :: "string \<Rightarrow> Host list \<Rightarrow> HostInfo list \<Rightarrow> bool" where
  "hostname_mode wherePorts hosts out =
     sort_Slice HostInfo_less (hostname_results wherePorts hosts) out"

text \<open>
  The condition under which the loop over the ports appends a port to \<^verbatim>\<open>openPort\<close>,
  with \<^verbatim>\<open>showAllPort\<close> and \<^verbatim>\<open>portSet\<close> as \<^verbatim>\<open>main\<close> computes them from the flag.
\<close>

definition selected :: "string \<Rightarrow> Port \<Rightarrow> bool" where
  "selected wp p =
     (State_State (State p) = ''open'' \<and>
      (length wp = 0 \<or>
       portSet_get (portSet_of (Split wp CHR '','')) (Itoa (PortID p))))"

section \<open>Mode 2: \<^verbatim>\<open>-port\<close>\<close>

definition port_key :: "Port \<Rightarrow> string" where
  "port_key p = Itoa (PortID p) @ ''/'' @ Protocol p"

text \<open>
  The body of the inner loop. Each key owns its \<^verbatim>\<open>PortInfo\<close>, reached through a
  pointer that no other key shares, so the increment is an update of the entry. The
  entry is there when it is incremented; the branch \<open>None\<close> of the second lookup is
  the nil pointer that cannot occur.
\<close>

definition portMap_step :: "Port \<Rightarrow> (string \<times> PortInfo) list \<Rightarrow> (string \<times> PortInfo) list" where
  "portMap_step p portMap =
     (if State_State (State p) = ''open'' then
        let key = port_key p;
            portMap' =
              (case map_of portMap key of
                 None \<Rightarrow>
                   AList.update key
                     \<lparr>PortInfo_Key = key, PortInfo_Service = Service_Name (Service p),
                      PortInfo_Count = 0\<rparr> portMap
               | Some _ \<Rightarrow> portMap)
        in (case map_of portMap' key of
              None \<Rightarrow> portMap'
            | Some v \<Rightarrow> AList.update key (v\<lparr>PortInfo_Count := PortInfo_Count v + 1\<rparr>) portMap')
      else portMap)"

definition portMap_of :: "Host list \<Rightarrow> (string \<times> PortInfo) list" where
  "portMap_of hosts = fold (\<lambda>h portMap. fold portMap_step (Ports h) portMap) hosts []"

definition PortInfo_less :: "PortInfo \<Rightarrow> PortInfo \<Rightarrow> bool" where
  "PortInfo_less a b = (PortInfo_Count a > PortInfo_Count b)"

text \<open>
  \<open>es\<close> is the sequence in which \<^verbatim>\<open>range portMap\<close> visits the entries, so \<open>map snd es\<close>
  is the slice \<^verbatim>\<open>ports\<close> before it is sorted.
\<close>

definition port_mode :: "Host list \<Rightarrow> (string \<times> PortInfo) list \<Rightarrow> PortInfo list \<Rightarrow> bool" where
  "port_mode hosts es out =
     (range_map (portMap_of hosts) es \<and> sort_Slice PortInfo_less (map snd es) out)"

section \<open>Mode 3: \<^verbatim>\<open>-vendor\<close>\<close>

definition vendorMap_step :: "Address \<Rightarrow> (string \<times> nat) list \<Rightarrow> (string \<times> nat) list" where
  "vendorMap_step a vendorMap =
     (if AddrType a = ''mac''
      then AList.update (Vendor a)
             ((case map_of vendorMap (Vendor a) of None \<Rightarrow> 0 | Some c \<Rightarrow> c) + 1) vendorMap
      else vendorMap)"

definition vendorMap_of :: "Host list \<Rightarrow> (string \<times> nat) list" where
  "vendorMap_of hosts = fold (\<lambda>h vendorMap. fold vendorMap_step (Addresses h) vendorMap) hosts []"

definition VendorInfo_less :: "VendorInfo \<Rightarrow> VendorInfo \<Rightarrow> bool" where
  "VendorInfo_less a b = (VendorInfo_Count a > VendorInfo_Count b)"

definition vendor_entry :: "string \<times> nat \<Rightarrow> VendorInfo" where
  "vendor_entry e = (case e of (k, v) \<Rightarrow> \<lparr>VendorInfo_Name = k, VendorInfo_Count = v\<rparr>)"

definition vendor_mode :: "Host list \<Rightarrow> (string \<times> nat) list \<Rightarrow> VendorInfo list \<Rightarrow> bool" where
  "vendor_mode hosts es out =
     (range_map (vendorMap_of hosts) es \<and> sort_Slice VendorInfo_less (map vendor_entry es) out)"

section \<open>\<^verbatim>\<open>main\<close>: the choice of the mode\<close>

text \<open>
  The flags, and what a run writes: the records of one mode, which the program prints
  in this order under a header line, or nothing at all. What the Go runtime chooses
  during a run is the record \<open>Runtime\<close>: the order of each \<^verbatim>\<open>range\<close> loop over a map.
  The rendering of the records as a table or as CSV is left to the libraries.
\<close>

record Flags =
  wherePorts :: string
  showHostnames :: bool
  showPorts :: bool
  showVendors :: bool
  outputCSV :: bool

datatype Report =
  HostReport "HostInfo list"
| PortReport "PortInfo list"
| VendorReport "VendorInfo list"

record Runtime =
  range_portMap :: "(string \<times> PortInfo) list"
  range_vendorMap :: "(string \<times> nat) list"

definition main_run :: "Flags \<Rightarrow> NmapRun \<Rightarrow> Runtime \<Rightarrow> Report option \<Rightarrow> bool" where
  "main_run flags nmap rt output =
     (if showHostnames flags then
        (case output of
           Some (HostReport results) \<Rightarrow> hostname_mode (wherePorts flags) (Hosts nmap) results
         | _ \<Rightarrow> False)
      else if showPorts flags then
        (case output of
           Some (PortReport ports) \<Rightarrow> port_mode (Hosts nmap) (range_portMap rt) ports
         | _ \<Rightarrow> False)
      else if showVendors flags then
        (case output of
           Some (VendorReport vendors) \<Rightarrow> vendor_mode (Hosts nmap) (range_vendorMap rt) vendors
         | _ \<Rightarrow> False)
      else output = None)"

section \<open>Example documents\<close>

text \<open>A host with two host names and several addresses of the same type.\<close>

definition example_hostC :: Host where
  "example_hostC =
     \<lparr>Addresses =
        [\<lparr>Addr = ''10.0.0.3'', AddrType = ''ipv4'', Vendor = []\<rparr>,
         \<lparr>Addr = ''AA:AA:AA:00:00:01'', AddrType = ''mac'', Vendor = ''Acme''\<rparr>,
         \<lparr>Addr = ''fe80::1'', AddrType = ''ipv6'', Vendor = []\<rparr>,
         \<lparr>Addr = ''10.0.0.4'', AddrType = ''ipv4'', Vendor = []\<rparr>,
         \<lparr>Addr = ''BB:BB:BB:00:00:02'', AddrType = ''mac'', Vendor = ''Bolt''\<rparr>],
      Hostnames = [\<lparr>Hostname_Name = ''alpha.lan''\<rparr>, \<lparr>Hostname_Name = ''beta.lan''\<rparr>],
      Ports =
        [\<lparr>Protocol = ''tcp'', PortID = 443, State = \<lparr>State_State = ''open''\<rparr>,
          Service = \<lparr>Service_Name = ''https''\<rparr>\<rparr>]\<rparr>"

text \<open>
  The two hosts of the example in the specification: host A with 22/tcp and 80/tcp open
  and 81/tcp closed, host B with 22/tcp open. Then a host with 22/tcp and 22/udp open.
\<close>

definition example_hostA :: Host where
  "example_hostA =
     \<lparr>Addresses = [\<lparr>Addr = ''10.0.0.1'', AddrType = ''ipv4'', Vendor = []\<rparr>],
      Hostnames = [],
      Ports =
        [\<lparr>Protocol = ''tcp'', PortID = 22, State = \<lparr>State_State = ''open''\<rparr>,
          Service = \<lparr>Service_Name = ''ssh''\<rparr>\<rparr>,
         \<lparr>Protocol = ''tcp'', PortID = 80, State = \<lparr>State_State = ''open''\<rparr>,
          Service = \<lparr>Service_Name = ''http''\<rparr>\<rparr>,
         \<lparr>Protocol = ''tcp'', PortID = 81, State = \<lparr>State_State = ''closed''\<rparr>,
          Service = \<lparr>Service_Name = []\<rparr>\<rparr>]\<rparr>"

definition example_hostB :: Host where
  "example_hostB =
     \<lparr>Addresses = [\<lparr>Addr = ''10.0.0.2'', AddrType = ''ipv4'', Vendor = []\<rparr>],
      Hostnames = [],
      Ports =
        [\<lparr>Protocol = ''tcp'', PortID = 22, State = \<lparr>State_State = ''open''\<rparr>,
          Service = \<lparr>Service_Name = ''ssh''\<rparr>\<rparr>]\<rparr>"

definition example_host22 :: Host where
  "example_host22 =
     \<lparr>Addresses = [],
      Hostnames = [],
      Ports =
        [\<lparr>Protocol = ''tcp'', PortID = 22, State = \<lparr>State_State = ''open''\<rparr>,
          Service = \<lparr>Service_Name = ''ssh''\<rparr>\<rparr>,
         \<lparr>Protocol = ''udp'', PortID = 22, State = \<lparr>State_State = ''open''\<rparr>,
          Service = \<lparr>Service_Name = []\<rparr>\<rparr>]\<rparr>"

text \<open>A host whose port list holds the same open port twice.\<close>

definition example_hostDup :: Host where
  "example_hostDup =
     \<lparr>Addresses = [\<lparr>Addr = ''10.0.0.5'', AddrType = ''ipv4'', Vendor = []\<rparr>],
      Hostnames = [],
      Ports =
        [\<lparr>Protocol = ''tcp'', PortID = 22, State = \<lparr>State_State = ''open''\<rparr>,
          Service = \<lparr>Service_Name = ''ssh''\<rparr>\<rparr>,
         \<lparr>Protocol = ''tcp'', PortID = 22, State = \<lparr>State_State = ''open''\<rparr>,
          Service = \<lparr>Service_Name = ''ssh''\<rparr>\<rparr>]\<rparr>"

text \<open>Two hosts, each with a \<^verbatim>\<open>mac\<close> address that has no \<^verbatim>\<open>vendor\<close> attribute.\<close>

definition example_hostM1 :: Host where
  "example_hostM1 =
     \<lparr>Addresses =
        [\<lparr>Addr = ''10.0.0.6'', AddrType = ''ipv4'', Vendor = []\<rparr>,
         \<lparr>Addr = ''CC:CC:CC:00:00:06'', AddrType = ''mac'', Vendor = []\<rparr>],
      Hostnames = [], Ports = []\<rparr>"

definition example_hostM2 :: Host where
  "example_hostM2 =
     \<lparr>Addresses = [\<lparr>Addr = ''DD:DD:DD:00:00:07'', AddrType = ''mac'', Vendor = []\<rparr>],
      Hostnames = [], Ports = []\<rparr>"

section \<open>Hostname mode: what the loops compute\<close>

lemma addr_loop_eq:
  "addr_loop as =
     (if filter (\<lambda>a. AddrType a = ''ipv4'') as = [] then []
      else Addr (last (filter (\<lambda>a. AddrType a = ''ipv4'') as)),
      if filter (\<lambda>a. AddrType a = ''mac'') as = [] then []
      else Addr (last (filter (\<lambda>a. AddrType a = ''mac'') as)),
      if filter (\<lambda>a. AddrType a = ''mac'') as = [] then []
      else Vendor (last (filter (\<lambda>a. AddrType a = ''mac'') as)))"
proof (induction as rule: rev_induct)
  case Nil
  show ?case by (simp add: addr_loop_def)
next
  case (snoc a as)
  have "addr_loop (as @ [a]) = addr_step a (addr_loop as)"
    by (simp add: addr_loop_def)
  then show ?case
    by (simp add: snoc addr_step_def)
qed

lemma port_fold_eq:
  "fold (port_step showAllPort portSet) ps (countOpen, match, openPort) =
     (countOpen + length (filter isOpen ps),
      match \<or> filter (\<lambda>p. isOpen p \<and> (showAllPort \<or> portSet_get portSet (Itoa (PortID p)))) ps \<noteq> [],
      openPort @ map (\<lambda>p. Itoa (PortID p))
        (filter (\<lambda>p. isOpen p \<and> (showAllPort \<or> portSet_get portSet (Itoa (PortID p)))) ps))"
  by (induction ps arbitrary: countOpen match openPort)
     (auto simp: port_step_def isOpen_def)

lemma port_loop_eq:
  "port_loop showAllPort portSet ps =
     (length (filter isOpen ps),
      filter (\<lambda>p. isOpen p \<and> (showAllPort \<or> portSet_get portSet (Itoa (PortID p)))) ps \<noteq> [],
      map (\<lambda>p. Itoa (PortID p))
        (filter (\<lambda>p. isOpen p \<and> (showAllPort \<or> portSet_get portSet (Itoa (PortID p)))) ps))"
  by (simp add: port_loop_def port_fold_eq)

lemma host_fold_eq:
  "fold (host_step showAllPort portSet) hosts results =
     results @ concat (map (\<lambda>h. host_step showAllPort portSet h []) hosts)"
proof (induction hosts arbitrary: results)
  case Nil
  show ?case by simp
next
  case (Cons h hosts)
  have "host_step showAllPort portSet h results = results @ host_step showAllPort portSet h []"
    by (simp add: host_step_def split: prod.splits)
  then show ?case
    by (simp add: Cons)
qed

lemma hostname_results_concat:
  "hostname_results wp hosts = concat (map (\<lambda>h. hostname_results wp [h]) hosts)"
  by (simp add: hostname_results_def Let_def host_fold_eq)

lemma hostname_results_single:
  "hostname_results wp [h] =
     (if filter (selected wp) (Ports h) = [] then []
      else [\<lparr>HostInfo_Hostname = host_hostname h,
             HostInfo_IPv4 = fst (addr_loop (Addresses h)),
             HostInfo_MAC = fst (snd (addr_loop (Addresses h))),
             HostInfo_Vendor = snd (snd (addr_loop (Addresses h))),
             HostInfo_CountOpen = length (filter isOpen (Ports h)),
             HostInfo_Ports = Join (map (\<lambda>p. Itoa (PortID p)) (filter (selected wp) (Ports h))) '',''\<rparr>])"
  by (simp add: hostname_results_def Let_def host_step_def port_loop_eq selected_def [abs_def]
      isOpen_def [abs_def] split: prod.splits)

text \<open>
  C6. In hostname mode the host name of a host is the first entry of its list of host
  names, or empty if the list is empty; the loop over the addresses leaves in \<^verbatim>\<open>ipv4\<close>
  the value of the last address of type \<^verbatim>\<open>ipv4\<close>, and in \<^verbatim>\<open>mac\<close> and \<^verbatim>\<open>vendor\<close> the value
  and the vendor of the last address of type \<^verbatim>\<open>mac\<close>, each empty if there is no such
  address; and these are the fields of the record emitted for the host.
\<close>

theorem hostname_mode_address_resolution:
  "host_hostname h = (if Hostnames h = [] then [] else Hostname_Name (hd (Hostnames h))) \<and>
   addr_loop (Addresses h) =
     (if filter (\<lambda>a. AddrType a = ''ipv4'') (Addresses h) = [] then []
      else Addr (last (filter (\<lambda>a. AddrType a = ''ipv4'') (Addresses h))),
      if filter (\<lambda>a. AddrType a = ''mac'') (Addresses h) = [] then []
      else Addr (last (filter (\<lambda>a. AddrType a = ''mac'') (Addresses h))),
      if filter (\<lambda>a. AddrType a = ''mac'') (Addresses h) = [] then []
      else Vendor (last (filter (\<lambda>a. AddrType a = ''mac'') (Addresses h)))) \<and>
   (\<forall>r \<in> set (hostname_results wp [h]).
      HostInfo_Hostname r = host_hostname h \<and>
      (HostInfo_IPv4 r, HostInfo_MAC r, HostInfo_Vendor r) = addr_loop (Addresses h))"
proof (intro conjI)
  show "host_hostname h = (if Hostnames h = [] then [] else Hostname_Name (hd (Hostnames h)))"
    by (cases "Hostnames h") (simp_all add: host_hostname_def)
  show "addr_loop (Addresses h) =
     (if filter (\<lambda>a. AddrType a = ''ipv4'') (Addresses h) = [] then []
      else Addr (last (filter (\<lambda>a. AddrType a = ''ipv4'') (Addresses h))),
      if filter (\<lambda>a. AddrType a = ''mac'') (Addresses h) = [] then []
      else Addr (last (filter (\<lambda>a. AddrType a = ''mac'') (Addresses h))),
      if filter (\<lambda>a. AddrType a = ''mac'') (Addresses h) = [] then []
      else Vendor (last (filter (\<lambda>a. AddrType a = ''mac'') (Addresses h))))"
    by (rule addr_loop_eq)
  show "\<forall>r \<in> set (hostname_results wp [h]).
      HostInfo_Hostname r = host_hostname h \<and>
      (HostInfo_IPv4 r, HostInfo_MAC r, HostInfo_Vendor r) = addr_loop (Addresses h)"
    by (simp add: hostname_results_single)
qed

lemma example_hostC_results:
  "hostname_results [] [example_hostC] =
     [\<lparr>HostInfo_Hostname = ''alpha.lan'', HostInfo_IPv4 = ''10.0.0.4'',
       HostInfo_MAC = ''BB:BB:BB:00:00:02'', HostInfo_Vendor = ''Bolt'',
       HostInfo_CountOpen = 1, HostInfo_Ports = ''443''\<rparr>]"
  by code_simp

theorem hostname_mode_address_resolution_witness:
  "set (hostname_results [] [example_hostC]) =
     {\<lparr>HostInfo_Hostname = ''alpha.lan'', HostInfo_IPv4 = ''10.0.0.4'',
       HostInfo_MAC = ''BB:BB:BB:00:00:02'', HostInfo_Vendor = ''Bolt'',
       HostInfo_CountOpen = 1, HostInfo_Ports = ''443''\<rparr>} \<and>
   host_hostname example_hostC = ''alpha.lan'' \<and>
   addr_loop (Addresses example_hostC) = (''10.0.0.4'', ''BB:BB:BB:00:00:02'', ''Bolt'')"
  using hostname_mode_address_resolution [of example_hostC "[]"]
  by (simp add: example_hostC_results)

section \<open>Hostname mode: the filter and the counters\<close>

lemma portSet_fold_get:
  "portSet_get (fold (\<lambda>p portSet. AList.update (TrimSpace p) True portSet) ports m) k
     = (k \<in> TrimSpace ` set ports \<or> portSet_get m k)"
  by (induction ports arbitrary: m) (auto simp: portSet_get_def update_conv')

lemma portSet_get_iff: "portSet_get (portSet_of ports) k = (k \<in> TrimSpace ` set ports)"
  by (simp add: portSet_of_def portSet_fold_get) (simp add: portSet_get_def)

lemma selected_iff:
  "selected wp p =
     (State_State (State p) = ''open'' \<and>
      (wp = [] \<or> Itoa (PortID p) \<in> TrimSpace ` set (Split wp CHR '','')))"
  by (simp add: selected_def portSet_get_iff)

lemma selected_isOpen: "selected wp p \<Longrightarrow> isOpen p"
  by (simp add: selected_def isOpen_def)

lemma hostname_results_mem:
  "r \<in> set (hostname_results wp hosts) = (\<exists>h \<in> set hosts. r \<in> set (hostname_results wp [h]))"
  by (subst hostname_results_concat) auto

lemma filter_selected_Nil: "(filter (selected wp) ps = []) = (\<not> list_ex (selected wp) ps)"
  by (simp add: filter_empty_conv list_ex_iff)

text \<open>
  C3. In hostname mode, for every host, \<^verbatim>\<open>CountOpen\<close> is the number of all the ports of
  the host whose state is \<^verbatim>\<open>open\<close>, whatever the filter; a port is listed in \<^verbatim>\<open>Ports\<close>
  exactly if it is open and the \<^verbatim>\<open>whereport\<close> string is empty or one of its entries,
  trimmed, is the decimal string of the port id; a host yields one record if it has
  such a port and none otherwise. So the ports listed are never more than
  \<^verbatim>\<open>CountOpen\<close>, and they can be fewer (host A with \<^verbatim>\<open>whereport\<close> \<open>22\<close>: one of two).
  The empty filter is the empty \<^verbatim>\<open>whereport\<close> string, which is what \<^verbatim>\<open>main\<close> tests
  (\<^verbatim>\<open>len(*wherePorts) == 0\<close>); the map \<^verbatim>\<open>portSet\<close> itself then holds the empty string.
\<close>

theorem hostname_mode_counts_and_filter:
  "selected wp p =
     (State_State (State p) = ''open'' \<and>
      (wp = [] \<or> Itoa (PortID p) \<in> TrimSpace ` set (Split wp CHR '',''))) \<and>
   hostname_results wp hosts = concat (map (\<lambda>h. hostname_results wp [h]) hosts) \<and>
   length (hostname_results wp [h]) = (if list_ex (selected wp) (Ports h) then 1 else 0) \<and>
   map HostInfo_CountOpen (hostname_results wp [h]) =
     (if list_ex (selected wp) (Ports h) then [length (filter isOpen (Ports h))] else []) \<and>
   map HostInfo_Ports (hostname_results wp [h]) =
     (if list_ex (selected wp) (Ports h)
      then [Join (map (\<lambda>p. Itoa (PortID p)) (filter (selected wp) (Ports h))) '','']
      else []) \<and>
   length (filter (selected wp) (Ports h)) \<le> length (filter isOpen (Ports h))"
proof (intro conjI)
  show "selected wp p =
     (State_State (State p) = ''open'' \<and>
      (wp = [] \<or> Itoa (PortID p) \<in> TrimSpace ` set (Split wp CHR '','')))"
    by (rule selected_iff)
  show "hostname_results wp hosts = concat (map (\<lambda>h. hostname_results wp [h]) hosts)"
    by (rule hostname_results_concat)
  show "length (hostname_results wp [h]) = (if list_ex (selected wp) (Ports h) then 1 else 0)"
    by (simp add: hostname_results_single filter_selected_Nil)
  show "map HostInfo_CountOpen (hostname_results wp [h]) =
     (if list_ex (selected wp) (Ports h) then [length (filter isOpen (Ports h))] else [])"
    by (simp add: hostname_results_single filter_selected_Nil)
  show "map HostInfo_Ports (hostname_results wp [h]) =
     (if list_ex (selected wp) (Ports h)
      then [Join (map (\<lambda>p. Itoa (PortID p)) (filter (selected wp) (Ports h))) '','']
      else [])"
    by (simp add: hostname_results_single filter_selected_Nil)
  have "filter (selected wp) (Ports h) = filter (selected wp) (filter isOpen (Ports h))"
    by (auto simp: selected_isOpen intro: filter_cong)
  then show "length (filter (selected wp) (Ports h)) \<le> length (filter isOpen (Ports h))"
    by (metis length_filter_le)
qed

lemma Itoa_22: "Itoa 22 = ''22''"
  by code_simp

lemma TrimSpace_examples:
  "TrimSpace '' 22 '' = ''22''" "TrimSpace ''022'' = ''022''" "TrimSpace ''0x16'' = ''0x16''"
  by code_simp+

text \<open>
  The example of the specification: hostname mode with \<^verbatim>\<open>whereport\<close> \<open>22\<close> on the hosts A
  and B lists both, with \<^verbatim>\<open>CountOpen\<close> 2 and 1, and \<^verbatim>\<open>Ports\<close> \<open>22\<close> for each.
\<close>

lemma example_AB_results_22:
  "hostname_results ''22'' [example_hostA, example_hostB] =
     [\<lparr>HostInfo_Hostname = [], HostInfo_IPv4 = ''10.0.0.1'', HostInfo_MAC = [],
       HostInfo_Vendor = [], HostInfo_CountOpen = 2, HostInfo_Ports = ''22''\<rparr>,
      \<lparr>HostInfo_Hostname = [], HostInfo_IPv4 = ''10.0.0.2'', HostInfo_MAC = [],
       HostInfo_Vendor = [], HostInfo_CountOpen = 1, HostInfo_Ports = ''22''\<rparr>]"
  by code_simp

lemma example_A_evaluated:
  "list_ex (selected ''22'') (Ports example_hostA)"
  "length (filter isOpen (Ports example_hostA)) = 2"
  "map (\<lambda>p. Itoa (PortID p)) (filter (selected ''22'') (Ports example_hostA)) = [''22'']"
  "length (filter (selected ''22'') (Ports example_hostA)) = 1"
  by code_simp+

theorem hostname_mode_counts_and_filter_witness:
  "map HostInfo_CountOpen (hostname_results ''22'' [example_hostA]) = [2] \<and>
   map HostInfo_Ports (hostname_results ''22'' [example_hostA]) = [''22'']"
  using hostname_mode_counts_and_filter
    [where wp = "''22''" and h = example_hostA and hosts = "[]" and p = "hd (Ports example_hostA)"]
  by (simp add: example_A_evaluated)

section \<open>Hostname mode: how the entries of the filter match\<close>

lemma Itoa_80: "Itoa 80 = ''80''"
  by code_simp

lemma TrimSpace_plain: "TrimSpace ''22'' = ''22''" "TrimSpace ''80'' = ''80''"
  by code_simp+

lemma TrimSpace_80: "TrimSpace '' 80'' = ''80''"
  by code_simp

lemma selected_nonempty:
  "wp \<noteq> [] \<Longrightarrow>
   selected wp p =
     (State_State (State p) = ''open'' \<and>
      (\<exists>e \<in> set (Split wp CHR '',''). TrimSpace e = Itoa (PortID p)))"
  by (simp add: selected_iff image_iff) metis

lemma selected_22:
  assumes "State_State (State q) = ''open''" and "PortID q = 22"
  shows "selected '' 22 '' q" and "\<not> selected ''022'' q" and "\<not> selected ''0x16'' q"
  using assms by (simp_all add: selected_iff Itoa_22 TrimSpace_examples)

text \<open>
  C9. With a \<^verbatim>\<open>whereport\<close> string that is not empty, a port is selected exactly if it is
  open and some piece of the string between commas, with the white space trimmed from
  both ends, is equal to the decimal string that \<^verbatim>\<open>strconv.Itoa\<close> gives for the port id.
  So for an open port 22 the entry \<open>'' 22 ''\<close> matches, and \<open>''022''\<close> and \<open>''0x16''\<close>
  do not: a host with that port alone is listed under the first and left out under the
  other two.
\<close>

theorem whereport_entries_trimmed_exact:
  "(wp \<noteq> [] \<longrightarrow>
      selected wp p =
        (State_State (State p) = ''open'' \<and>
         (\<exists>e \<in> set (Split wp CHR '',''). TrimSpace e = Itoa (PortID p)))) \<and>
   (State_State (State q) = ''open'' \<and> PortID q = 22 \<longrightarrow>
      selected '' 22 '' q \<and> \<not> selected ''022'' q \<and> \<not> selected ''0x16'' q) \<and>
   (Ports h = [q] \<and> State_State (State q) = ''open'' \<and> PortID q = 22 \<longrightarrow>
      map HostInfo_Ports (hostname_results '' 22 '' [h]) = [''22''] \<and>
      hostname_results ''022'' [h] = [] \<and>
      hostname_results ''0x16'' [h] = [])"
proof (intro conjI impI)
  assume "wp \<noteq> []"
  then show "selected wp p =
        (State_State (State p) = ''open'' \<and>
         (\<exists>e \<in> set (Split wp CHR '',''). TrimSpace e = Itoa (PortID p)))"
    by (rule selected_nonempty)
next
  assume "State_State (State q) = ''open'' \<and> PortID q = 22"
  then show "selected '' 22 '' q" "\<not> selected ''022'' q" "\<not> selected ''0x16'' q"
    by (simp_all add: selected_22)
next
  assume a: "Ports h = [q] \<and> State_State (State q) = ''open'' \<and> PortID q = 22"
  then have s: "selected '' 22 '' q" "\<not> selected ''022'' q" "\<not> selected ''0x16'' q"
    by (simp_all add: selected_22)
  from a s show "map HostInfo_Ports (hostname_results '' 22 '' [h]) = [''22'']"
    by (simp add: hostname_results_single Itoa_22)
  from a s show "hostname_results ''022'' [h] = []"
    by (simp add: hostname_results_single)
  from a s show "hostname_results ''0x16'' [h] = []"
    by (simp add: hostname_results_single)
qed

theorem whereport_entries_trimmed_exact_witness:
  "''22, 80'' \<noteq> [] \<and>
   selected ''22, 80'' (Ports example_hostA ! 1) \<and>
   Split ''22, 80'' CHR '','' = [''22'', '' 80''] \<and>
   Ports example_hostB = [hd (Ports example_hostB)] \<and>
   State_State (State (hd (Ports example_hostB))) = ''open'' \<and>
   PortID (hd (Ports example_hostB)) = 22 \<and>
   selected '' 22 '' (hd (Ports example_hostB)) \<and>
   \<not> selected ''022'' (hd (Ports example_hostB)) \<and>
   \<not> selected ''0x16'' (hd (Ports example_hostB)) \<and>
   map HostInfo_Ports (hostname_results '' 22 '' [example_hostB]) = [''22''] \<and>
   hostname_results ''022'' [example_hostB] = [] \<and>
   hostname_results ''0x16'' [example_hostB] = []"
proof -
  have p: "State_State (State (Ports example_hostA ! 1)) = ''open''"
    "PortID (Ports example_hostA ! 1) = 80"
    by (simp_all add: example_hostA_def)
  have q: "Ports example_hostB = [hd (Ports example_hostB)]"
    "State_State (State (hd (Ports example_hostB))) = ''open''"
    "PortID (hd (Ports example_hostB)) = 22"
    by (simp_all add: example_hostB_def)
  have w: "''22, 80'' \<noteq> []"
    by simp
  from p q w
    whereport_entries_trimmed_exact
      [where wp = "''22, 80''" and p = "Ports example_hostA ! 1"
         and q = "hd (Ports example_hostB)" and h = example_hostB]
  show ?thesis
    by (simp add: Itoa_80 TrimSpace_80)
qed



section \<open>Hostname mode: the \<^verbatim>\<open>Ports\<close> field\<close>

lemma hostname_mode_set: "hostname_mode wp hosts out \<Longrightarrow> set out = set (hostname_results wp hosts)"
  by (auto simp: hostname_mode_def sort_Slice_def dest: mset_eq_setD)

lemma hostname_results_single_mem:
  assumes "r \<in> set (hostname_results wp [h])"
  shows "list_ex (selected wp) (Ports h)"
    and "HostInfo_Ports r = Join (map (\<lambda>p. Itoa (PortID p)) (filter (selected wp) (Ports h))) '',''"
    and "HostInfo_CountOpen r = length (filter isOpen (Ports h))"
proof -
  have ne: "filter (selected wp) (Ports h) \<noteq> []"
  proof
    assume "filter (selected wp) (Ports h) = []"
    then have "hostname_results wp [h] = []"
      by (simp add: hostname_results_single)
    with assms show False by simp
  qed
  then show "list_ex (selected wp) (Ports h)"
    by (simp add: filter_selected_Nil)
  from ne have "hostname_results wp [h] = [\<lparr>HostInfo_Hostname = host_hostname h,
             HostInfo_IPv4 = fst (addr_loop (Addresses h)),
             HostInfo_MAC = fst (snd (addr_loop (Addresses h))),
             HostInfo_Vendor = snd (snd (addr_loop (Addresses h))),
             HostInfo_CountOpen = length (filter isOpen (Ports h)),
             HostInfo_Ports = Join (map (\<lambda>p. Itoa (PortID p)) (filter (selected wp) (Ports h))) '',''\<rparr>]"
    by (simp add: hostname_results_single)
  with assms have r: "r = \<lparr>HostInfo_Hostname = host_hostname h,
             HostInfo_IPv4 = fst (addr_loop (Addresses h)),
             HostInfo_MAC = fst (snd (addr_loop (Addresses h))),
             HostInfo_Vendor = snd (snd (addr_loop (Addresses h))),
             HostInfo_CountOpen = length (filter isOpen (Ports h)),
             HostInfo_Ports = Join (map (\<lambda>p. Itoa (PortID p)) (filter (selected wp) (Ports h))) '',''\<rparr>"
    by simp
  show "HostInfo_Ports r = Join (map (\<lambda>p. Itoa (PortID p)) (filter (selected wp) (Ports h))) '',''"
    by (subst r) simp
  show "HostInfo_CountOpen r = length (filter isOpen (Ports h))"
    by (subst r) simp
qed

lemma two_ports_22:
  assumes "Ports h = [p, q]" "State_State (State p) = ''open''" "State_State (State q) = ''open''"
    "PortID p = 22" "PortID q = 22" "selected wp p"
  shows "map (\<lambda>r. (HostInfo_CountOpen r, HostInfo_Ports r)) (hostname_results wp [h]) =
        [(2, ''22,22'')]"
proof -
  have "selected wp q"
    using assms by (simp add: selected_iff)
  then have f: "filter (selected wp) (Ports h) = [p, q]"
    using assms by simp
  have o: "filter isOpen (Ports h) = [p, q]"
    using assms by (simp add: isOpen_def)
  show ?thesis
    by (simp add: hostname_results_single f o assms(4,5) Itoa_22)
qed

text \<open>
  C10. Every record that hostname mode emits belongs to a host of the document with a
  selected port; its \<^verbatim>\<open>Ports\<close> field is the decimal strings of the ids of the selected
  ports of that host, in the order of the host's port list, joined by commas, with
  nothing removed and the protocol not looked at. A host whose ports are 22 open twice
  (as 22/tcp and 22/udp), under a filter that selects port 22, gets \<^verbatim>\<open>Ports\<close> \<open>22,22\<close> and
  \<^verbatim>\<open>CountOpen\<close> 2.
\<close>

theorem ports_field_lists_matches_in_order:
  "(hostname_mode wp hosts out \<and> r \<in> set out \<longrightarrow>
      (\<exists>h \<in> set hosts.
         list_ex (selected wp) (Ports h) \<and>
         HostInfo_Ports r =
           Join (map (\<lambda>p. Itoa (PortID p)) (filter (selected wp) (Ports h))) '','' \<and>
         HostInfo_CountOpen r = length (filter isOpen (Ports h)))) \<and>
   (Ports h = [p, q] \<and> State_State (State p) = ''open'' \<and> State_State (State q) = ''open'' \<and>
    PortID p = 22 \<and> PortID q = 22 \<and> selected wp p \<longrightarrow>
      map (\<lambda>r. (HostInfo_CountOpen r, HostInfo_Ports r)) (hostname_results wp [h]) =
        [(2, ''22,22'')])"
proof (intro conjI impI)
  assume a: "hostname_mode wp hosts out \<and> r \<in> set out"
  then have "r \<in> set (hostname_results wp hosts)"
    using hostname_mode_set by blast
  then obtain h where h: "h \<in> set hosts" "r \<in> set (hostname_results wp [h])"
    using hostname_results_mem by blast
  from h(1) hostname_results_single_mem [OF h(2)]
  show "\<exists>h \<in> set hosts.
         list_ex (selected wp) (Ports h) \<and>
         HostInfo_Ports r =
           Join (map (\<lambda>p. Itoa (PortID p)) (filter (selected wp) (Ports h))) '','' \<and>
         HostInfo_CountOpen r = length (filter isOpen (Ports h))"
    by blast
next
  assume "Ports h = [p, q] \<and> State_State (State p) = ''open'' \<and>
    State_State (State q) = ''open'' \<and> PortID p = 22 \<and> PortID q = 22 \<and> selected wp p"
  then show "map (\<lambda>r. (HostInfo_CountOpen r, HostInfo_Ports r)) (hostname_results wp [h]) =
        [(2, ''22,22'')]"
    using two_ports_22 by blast
qed

lemma example_host22_results:
  "hostname_results ''22'' [example_host22] =
     [\<lparr>HostInfo_Hostname = [], HostInfo_IPv4 = [], HostInfo_MAC = [], HostInfo_Vendor = [],
       HostInfo_CountOpen = 2, HostInfo_Ports = ''22,22''\<rparr>]"
  by code_simp

lemma example_host22_selected: "selected ''22'' (hd (Ports example_host22))"
  by code_simp

theorem ports_field_lists_matches_in_order_witness:
  "hostname_mode ''22'' [example_host22] (hostname_results ''22'' [example_host22]) \<and>
   hostname_results ''22'' [example_host22] =
     [\<lparr>HostInfo_Hostname = [], HostInfo_IPv4 = [], HostInfo_MAC = [], HostInfo_Vendor = [],
       HostInfo_CountOpen = 2, HostInfo_Ports = ''22,22''\<rparr>] \<and>
   list_ex (selected ''22'') (Ports example_host22) \<and>
   Join (map (\<lambda>p. Itoa (PortID p)) (filter (selected ''22'') (Ports example_host22))) '','' =
     ''22,22'' \<and>
   length (filter isOpen (Ports example_host22)) = 2 \<and>
   Ports example_host22 = [hd (Ports example_host22), Ports example_host22 ! 1] \<and>
   State_State (State (hd (Ports example_host22))) = ''open'' \<and>
   State_State (State (Ports example_host22 ! 1)) = ''open'' \<and>
   PortID (hd (Ports example_host22)) = 22 \<and> PortID (Ports example_host22 ! 1) = 22 \<and>
   Protocol (hd (Ports example_host22)) = ''tcp'' \<and>
   Protocol (Ports example_host22 ! 1) = ''udp'' \<and>
   selected ''22'' (hd (Ports example_host22))"
proof -
  let ?r = "\<lparr>HostInfo_Hostname = [], HostInfo_IPv4 = [], HostInfo_MAC = [], HostInfo_Vendor = [],
       HostInfo_CountOpen = 2, HostInfo_Ports = ''22,22''\<rparr>"
  have m: "hostname_mode ''22'' [example_host22] [?r]" "?r \<in> set [?r]"
    by (simp_all add: hostname_mode_def sort_Slice_def example_host22_results)
  have e: "Ports example_host22 = [hd (Ports example_host22), Ports example_host22 ! 1]"
    "State_State (State (hd (Ports example_host22))) = ''open''"
    "State_State (State (Ports example_host22 ! 1)) = ''open''"
    "PortID (hd (Ports example_host22)) = 22" "PortID (Ports example_host22 ! 1) = 22"
    "Protocol (hd (Ports example_host22)) = ''tcp''"
    "Protocol (Ports example_host22 ! 1) = ''udp''"
    by (simp_all add: example_host22_def)
  from m e example_host22_selected
    ports_field_lists_matches_in_order
      [where wp = "''22''" and hosts = "[example_host22]" and out = "[?r]" and r = ?r
         and h = example_host22 and p = "hd (Ports example_host22)"
         and q = "Ports example_host22 ! 1"]
  show ?thesis
    by (simp add: example_host22_results)
qed


section \<open>Hostname mode: no filter, and a filter that holds every open port\<close>

lemma hostname_results_cong:
  assumes "\<And>h. h \<in> set hosts \<Longrightarrow> hostname_results wp [h] = hostname_results wp' [h]"
  shows "hostname_results wp hosts = hostname_results wp' hosts"
proof -
  have "map (\<lambda>h. hostname_results wp [h]) hosts = map (\<lambda>h. hostname_results wp' [h]) hosts"
    using assms by simp
  then have "concat (map (\<lambda>h. hostname_results wp [h]) hosts) =
        concat (map (\<lambda>h. hostname_results wp' [h]) hosts)"
    by (rule arg_cong)
  then show ?thesis
    by (simp only: hostname_results_concat [symmetric])
qed

text \<open>
  C4. If the filter set that \<^verbatim>\<open>main\<close> builds from \<^verbatim>\<open>whereport\<close> holds the decimal string of
  the id of every open port of the document, then \<^verbatim>\<open>results\<close> is, before the sort, the
  same sequence of records as with the empty \<^verbatim>\<open>whereport\<close>: the same hosts, in the same
  order, with the same \<^verbatim>\<open>CountOpen\<close> and the same \<^verbatim>\<open>Ports\<close>. The sort then receives the
  same slice, so a sequence is an outcome of the one run exactly if it is an outcome
  of the other.
\<close>

theorem empty_filter_same_as_all_open_ports:
  assumes "\<forall>h \<in> set hosts. \<forall>p \<in> set (Ports h).
             State_State (State p) = ''open'' \<longrightarrow>
             portSet_get (portSet_of (Split wp CHR '','')) (Itoa (PortID p))"
  shows "hostname_results wp hosts = hostname_results [] hosts \<and>
         hostname_mode wp hosts out = hostname_mode [] hosts out"
proof -
  have "hostname_results wp [h] = hostname_results [] [h]" if "h \<in> set hosts" for h
  proof -
    have "filter (selected wp) (Ports h) = filter (selected []) (Ports h)"
      using assms that by (intro filter_cong) (auto simp: selected_def)
    then show ?thesis
      by (simp add: hostname_results_single)
  qed
  then have "hostname_results wp hosts = hostname_results [] hosts"
    by (rule hostname_results_cong)
  then show ?thesis
    by (simp add: hostname_mode_def)
qed

lemma example_AB_covered:
  "\<forall>h \<in> set [example_hostA, example_hostB]. \<forall>p \<in> set (Ports h).
     State_State (State p) = ''open'' \<longrightarrow>
     portSet_get (portSet_of (Split ''22,80'' CHR '','')) (Itoa (PortID p))"
  by (simp add: example_hostA_def example_hostB_def portSet_get_iff TrimSpace_plain Itoa_22
      Itoa_80)

lemma example_AB_results:
  "hostname_results [] [example_hostA, example_hostB] =
     [\<lparr>HostInfo_Hostname = [], HostInfo_IPv4 = ''10.0.0.1'', HostInfo_MAC = [],
       HostInfo_Vendor = [], HostInfo_CountOpen = 2, HostInfo_Ports = ''22,80''\<rparr>,
      \<lparr>HostInfo_Hostname = [], HostInfo_IPv4 = ''10.0.0.2'', HostInfo_MAC = [],
       HostInfo_Vendor = [], HostInfo_CountOpen = 1, HostInfo_Ports = ''22''\<rparr>]"
  by code_simp

theorem empty_filter_same_as_all_open_ports_witness:
  "hostname_results ''22,80'' [example_hostA, example_hostB] =
     [\<lparr>HostInfo_Hostname = [], HostInfo_IPv4 = ''10.0.0.1'', HostInfo_MAC = [],
       HostInfo_Vendor = [], HostInfo_CountOpen = 2, HostInfo_Ports = ''22,80''\<rparr>,
      \<lparr>HostInfo_Hostname = [], HostInfo_IPv4 = ''10.0.0.2'', HostInfo_MAC = [],
       HostInfo_Vendor = [], HostInfo_CountOpen = 1, HostInfo_Ports = ''22''\<rparr>] \<and>
   hostname_mode ''22,80'' [example_hostA, example_hostB]
     (hostname_results [] [example_hostA, example_hostB])"
proof -
  let ?hs = "[example_hostA, example_hostB]"
  note t = empty_filter_same_as_all_open_ports
    [OF example_AB_covered, of "hostname_results [] ?hs"]
  have s: "hostname_mode [] ?hs (hostname_results [] ?hs)"
    unfolding hostname_mode_def sort_Slice_def example_AB_results
    by (simp add: HostInfo_less_def)
  from t have 1: "hostname_results ''22,80'' ?hs = hostname_results [] ?hs"
    by (rule conjunct1)
  from t s have 2: "hostname_mode ''22,80'' ?hs (hostname_results [] ?hs)"
    by blast
  from 1 2 show ?thesis
    by (simp only: example_AB_results simp_thms)
qed

section \<open>Port mode: the map after the loops\<close>

lemma fold_fold_concat: "fold (\<lambda>x acc. fold f (g x) acc) xs acc = fold f (concat (map g xs)) acc"
  by (induction xs arbitrary: acc) simp_all

lemma portMap_of_flat: "portMap_of hosts = fold portMap_step (concat (map Ports hosts)) []"
  by (simp add: portMap_of_def fold_fold_concat)

lemma portMap_step_map_of:
  "map_of (portMap_step p m) =
     (if State_State (State p) = ''open'' then
        (map_of m)(port_key p \<mapsto>
          (case map_of m (port_key p) of
             None \<Rightarrow>
               \<lparr>PortInfo_Key = port_key p, PortInfo_Service = Service_Name (Service p),
                PortInfo_Count = 1\<rparr>
           | Some v \<Rightarrow> v\<lparr>PortInfo_Count := PortInfo_Count v + 1\<rparr>))
      else map_of m)"
  by (simp add: portMap_step_def Let_def update_conv' split: option.splits)

lemma portMap_step_distinct:
  "distinct (map fst m) \<Longrightarrow> distinct (map fst (portMap_step p m))"
  by (simp add: portMap_step_def Let_def distinct_update split: option.splits)

lemma portMap_fold_distinct:
  "distinct (map fst m) \<Longrightarrow> distinct (map fst (fold portMap_step ps m))"
  by (induction ps arbitrary: m) (simp_all add: portMap_step_distinct)

lemma portMap_of_distinct: "distinct (map fst (portMap_of hosts))"
  by (simp add: portMap_of_flat portMap_fold_distinct)

lemma portMap_fold_lookup:
  "map_of (fold portMap_step ps []) k =
     (case filter (\<lambda>p. State_State (State p) = ''open'' \<and> port_key p = k) ps of
        [] \<Rightarrow> None
      | p # qs \<Rightarrow>
          Some \<lparr>PortInfo_Key = k, PortInfo_Service = Service_Name (Service p),
                PortInfo_Count = length (p # qs)\<rparr>)"
proof (induction ps rule: rev_induct)
  case Nil
  show ?case by simp
next
  case (snoc x ps)
  have "map_of (fold portMap_step (ps @ [x]) []) k =
        map_of (portMap_step x (fold portMap_step ps [])) k"
    by simp
  also have "\<dots> =
     (case filter (\<lambda>p. State_State (State p) = ''open'' \<and> port_key p = k) (ps @ [x]) of
        [] \<Rightarrow> None
      | p # qs \<Rightarrow>
          Some \<lparr>PortInfo_Key = k, PortInfo_Service = Service_Name (Service p),
                PortInfo_Count = length (p # qs)\<rparr>)"
  proof (cases "State_State (State x) = ''open'' \<and> port_key x = k")
    case True
    then show ?thesis
      by (simp add: portMap_step_map_of snoc split: list.splits)
  next
    case False
    then show ?thesis
      by (auto simp: portMap_step_map_of snoc)
  qed
  finally show ?case .
qed

lemma port_mode_mset:
  "port_mode hosts es out \<Longrightarrow> mset out = mset (map snd (portMap_of hosts))"
  by (simp add: port_mode_def range_map_def sort_Slice_def)

lemma port_mode_lookup:
  assumes "port_mode hosts es out" and "r \<in> set out"
  shows "\<exists>k. map_of (portMap_of hosts) k = Some r"
proof -
  from assms(1) have "set out = set (map snd (portMap_of hosts))"
    by (metis port_mode_mset mset_eq_setD)
  with assms(2) obtain k where "(k, r) \<in> set (portMap_of hosts)"
    by auto
  then have "map_of (portMap_of hosts) k = Some r"
    using portMap_of_distinct by simp
  then show ?thesis ..
qed

lemma portMap_of_entry:
  assumes "map_of (portMap_of hosts) k = Some r"
  shows "PortInfo_Key r = k"
    and "filter (\<lambda>p. State_State (State p) = ''open'' \<and> port_key p = k)
           (concat (map Ports hosts)) \<noteq> []"
    and "PortInfo_Service r =
           Service_Name (Service (hd (filter (\<lambda>p. State_State (State p) = ''open'' \<and> port_key p = k)
             (concat (map Ports hosts)))))"
    and "PortInfo_Count r =
           length (filter (\<lambda>p. State_State (State p) = ''open'' \<and> port_key p = k)
             (concat (map Ports hosts)))"
  using assms
  by (auto simp: portMap_of_flat portMap_fold_lookup split: list.splits)

lemma portMap_of_keys:
  "set (map fst (portMap_of hosts)) =
     port_key ` {p \<in> set (concat (map Ports hosts)). State_State (State p) = ''open''}"
proof -
  have "(k \<in> fst ` set (portMap_of hosts)) =
        (k \<in> port_key ` {p \<in> set (concat (map Ports hosts)). State_State (State p) = ''open''})"
    for k
  proof -
    have "(k \<in> fst ` set (portMap_of hosts)) = (map_of (portMap_of hosts) k \<noteq> None)"
      by (simp add: map_of_eq_None_iff)
    also have "\<dots> = (filter (\<lambda>p. State_State (State p) = ''open'' \<and> port_key p = k)
           (concat (map Ports hosts)) \<noteq> [])"
      by (simp add: portMap_of_flat portMap_fold_lookup split: list.splits)
    also have "\<dots> =
        (k \<in> port_key ` {p \<in> set (concat (map Ports hosts)). State_State (State p) = ''open''})"
      by (simp only: filter_empty_conv image_iff mem_Collect_eq) blast
    finally show ?thesis .
  qed
  then have "fst ` set (portMap_of hosts) =
      port_key ` {p \<in> set (concat (map Ports hosts)). State_State (State p) = ''open''}"
    by (rule set_eqI)
  then show ?thesis
    by (simp only: set_map)
qed

lemma portMap_of_key_field:
  "map PortInfo_Key (map snd (portMap_of hosts)) = map fst (portMap_of hosts)"
proof -
  have "PortInfo_Key (snd e) = fst e" if "e \<in> set (portMap_of hosts)" for e
  proof -
    from that have "map_of (portMap_of hosts) (fst e) = Some (snd e)"
      using portMap_of_distinct by simp
    then show ?thesis
      by (rule portMap_of_entry(1))
  qed
  then show ?thesis
    by simp
qed

text \<open>
  C5. Every record that port mode emits has a key with at least one open occurrence
  in the document; its service name is that of the first open port with this key, in
  the order of the hosts and of the ports of each host, and its count is the number
  of all the open ports with this key, those repeated inside one host included. There
  is one record for each key that occurs on an open port.
\<close>

theorem port_mode_first_service_every_count:
  "(port_mode hosts es out \<and> r \<in> set out \<longrightarrow>
      (let occ = filter (\<lambda>p. State_State (State p) = ''open'' \<and> port_key p = PortInfo_Key r)
                   (concat (map Ports hosts))
       in occ \<noteq> [] \<and>
          PortInfo_Service r = Service_Name (Service (hd occ)) \<and>
          PortInfo_Count r = length occ)) \<and>
   (port_mode hosts es out \<longrightarrow>
      distinct (map PortInfo_Key out) \<and>
      set (map PortInfo_Key out) =
        port_key ` {p \<in> set (concat (map Ports hosts)). State_State (State p) = ''open''})"
proof (intro conjI impI)
  assume "port_mode hosts es out \<and> r \<in> set out"
  then obtain k where k: "map_of (portMap_of hosts) k = Some r"
    using port_mode_lookup by blast
  from portMap_of_entry [OF k]
  show "let occ = filter (\<lambda>p. State_State (State p) = ''open'' \<and> port_key p = PortInfo_Key r)
                   (concat (map Ports hosts))
       in occ \<noteq> [] \<and>
          PortInfo_Service r = Service_Name (Service (hd occ)) \<and>
          PortInfo_Count r = length occ"
    by (simp add: Let_def)
next
  assume a: "port_mode hosts es out"
  then have "mset (map PortInfo_Key out) = mset (map fst (portMap_of hosts))"
    by (metis port_mode_mset portMap_of_key_field mset_map)
  then have d: "distinct (map PortInfo_Key out) = distinct (map fst (portMap_of hosts))"
    and s: "set (map PortInfo_Key out) = set (map fst (portMap_of hosts))"
    by (metis mset_eq_imp_distinct_iff, metis mset_eq_setD)
  from d show "distinct (map PortInfo_Key out)"
    by (simp add: portMap_of_distinct)
  from s show "set (map PortInfo_Key out) =
        port_key ` {p \<in> set (concat (map Ports hosts)). State_State (State p) = ''open''}"
    by (simp only: portMap_of_keys)
qed

lemma example_AB_portMap:
  "portMap_of [example_hostA, example_hostB] =
     [(''22/tcp'', \<lparr>PortInfo_Key = ''22/tcp'', PortInfo_Service = ''ssh'', PortInfo_Count = 2\<rparr>),
      (''80/tcp'', \<lparr>PortInfo_Key = ''80/tcp'', PortInfo_Service = ''http'', PortInfo_Count = 1\<rparr>)]"
  by code_simp

lemma example_AB_port_mode:
  "port_mode [example_hostA, example_hostB]
     [(''80/tcp'', \<lparr>PortInfo_Key = ''80/tcp'', PortInfo_Service = ''http'', PortInfo_Count = 1\<rparr>),
      (''22/tcp'', \<lparr>PortInfo_Key = ''22/tcp'', PortInfo_Service = ''ssh'', PortInfo_Count = 2\<rparr>)]
     [\<lparr>PortInfo_Key = ''22/tcp'', PortInfo_Service = ''ssh'', PortInfo_Count = 2\<rparr>,
      \<lparr>PortInfo_Key = ''80/tcp'', PortInfo_Service = ''http'', PortInfo_Count = 1\<rparr>]"
  unfolding port_mode_def range_map_def sort_Slice_def example_AB_portMap
  by (simp add: PortInfo_less_def)

theorem port_mode_first_service_every_count_witness:
  "port_mode [example_hostA, example_hostB]
     [(''80/tcp'', \<lparr>PortInfo_Key = ''80/tcp'', PortInfo_Service = ''http'', PortInfo_Count = 1\<rparr>),
      (''22/tcp'', \<lparr>PortInfo_Key = ''22/tcp'', PortInfo_Service = ''ssh'', PortInfo_Count = 2\<rparr>)]
     [\<lparr>PortInfo_Key = ''22/tcp'', PortInfo_Service = ''ssh'', PortInfo_Count = 2\<rparr>,
      \<lparr>PortInfo_Key = ''80/tcp'', PortInfo_Service = ''http'', PortInfo_Count = 1\<rparr>] \<and>
   length (filter (\<lambda>p. State_State (State p) = ''open'' \<and> port_key p = ''22/tcp'')
        (concat (map Ports [example_hostA, example_hostB]))) = 2 \<and>
   port_key ` {p \<in> set (concat (map Ports [example_hostA, example_hostB])).
                State_State (State p) = ''open''} = {''22/tcp'', ''80/tcp''}"
proof -
  let ?r = "\<lparr>PortInfo_Key = ''22/tcp'', PortInfo_Service = ''ssh'', PortInfo_Count = 2\<rparr>"
  let ?s = "\<lparr>PortInfo_Key = ''80/tcp'', PortInfo_Service = ''http'', PortInfo_Count = 1\<rparr>"
  note t = port_mode_first_service_every_count
    [where hosts = "[example_hostA, example_hostB]"
       and es = "[(''80/tcp'', ?s), (''22/tcp'', ?r)]" and out = "[?r, ?s]" and r = ?r]
  have m: "?r \<in> set [?r, ?s]"
    by simp
  from t example_AB_port_mode m
  have 1: "length (filter (\<lambda>p. State_State (State p) = ''open'' \<and> port_key p = ''22/tcp'')
        (concat (map Ports [example_hostA, example_hostB]))) = 2"
    by (simp add: Let_def)
  from t example_AB_port_mode
  have 2: "port_key ` {p \<in> set (concat (map Ports [example_hostA, example_hostB])).
                State_State (State p) = ''open''} = {''22/tcp'', ''80/tcp''}"
    by auto
  from example_AB_port_mode 1 2 show ?thesis
    by blast
qed

section \<open>Vendor mode: the map after the loops\<close>

lemma vendorMap_of_flat: "vendorMap_of hosts = fold vendorMap_step (concat (map Addresses hosts)) []"
  by (simp add: vendorMap_of_def fold_fold_concat)

lemma vendorMap_step_map_of:
  "map_of (vendorMap_step a m) =
     (if AddrType a = ''mac''
      then (map_of m)(Vendor a \<mapsto> (case map_of m (Vendor a) of None \<Rightarrow> 0 | Some c \<Rightarrow> c) + 1)
      else map_of m)"
  by (simp add: vendorMap_step_def update_conv')

lemma vendorMap_fold_distinct:
  "distinct (map fst m) \<Longrightarrow> distinct (map fst (fold vendorMap_step as m))"
  by (induction as arbitrary: m) (simp_all add: vendorMap_step_def distinct_update)

lemma vendorMap_of_distinct: "distinct (map fst (vendorMap_of hosts))"
  by (simp add: vendorMap_of_flat vendorMap_fold_distinct)

lemma vendorMap_fold_lookup:
  "map_of (fold vendorMap_step as []) v =
     (if filter (\<lambda>a. AddrType a = ''mac'' \<and> Vendor a = v) as = [] then None
      else Some (length (filter (\<lambda>a. AddrType a = ''mac'' \<and> Vendor a = v) as)))"
proof (induction as rule: rev_induct)
  case Nil
  show ?case by simp
next
  case (snoc x as)
  have "map_of (fold vendorMap_step (as @ [x]) []) v =
        map_of (vendorMap_step x (fold vendorMap_step as [])) v"
    by simp
  also have "\<dots> =
     (if filter (\<lambda>a. AddrType a = ''mac'' \<and> Vendor a = v) (as @ [x]) = [] then None
      else Some (length (filter (\<lambda>a. AddrType a = ''mac'' \<and> Vendor a = v) (as @ [x]))))"
  proof (cases "AddrType x = ''mac'' \<and> Vendor x = v")
    case True
    then show ?thesis
      by (simp add: vendorMap_step_map_of snoc)
  next
    case False
    then show ?thesis
      by (auto simp: vendorMap_step_map_of snoc)
  qed
  finally show ?case .
qed

lemma vendor_mode_mset:
  "vendor_mode hosts es out \<Longrightarrow> mset out = mset (map vendor_entry (vendorMap_of hosts))"
  by (simp add: vendor_mode_def range_map_def sort_Slice_def)

lemma vendor_entry_Name: "map VendorInfo_Name (map vendor_entry m) = map fst m"
  by (simp add: vendor_entry_def split_def)

lemma vendorMap_of_keys:
  "set (map fst (vendorMap_of hosts)) =
     Vendor ` {a \<in> set (concat (map Addresses hosts)). AddrType a = ''mac''}"
proof -
  have "(v \<in> fst ` set (vendorMap_of hosts)) =
        (v \<in> Vendor ` {a \<in> set (concat (map Addresses hosts)). AddrType a = ''mac''})" for v
  proof -
    have "(v \<in> fst ` set (vendorMap_of hosts)) = (map_of (vendorMap_of hosts) v \<noteq> None)"
      by (simp add: map_of_eq_None_iff)
    also have "\<dots> = (filter (\<lambda>a. AddrType a = ''mac'' \<and> Vendor a = v)
           (concat (map Addresses hosts)) \<noteq> [])"
      by (simp add: vendorMap_of_flat vendorMap_fold_lookup)
    also have "\<dots> =
        (v \<in> Vendor ` {a \<in> set (concat (map Addresses hosts)). AddrType a = ''mac''})"
      by (simp only: filter_empty_conv image_iff mem_Collect_eq) blast
    finally show ?thesis .
  qed
  then have "fst ` set (vendorMap_of hosts) =
      Vendor ` {a \<in> set (concat (map Addresses hosts)). AddrType a = ''mac''}"
    by (rule set_eqI)
  then show ?thesis
    by (simp only: set_map)
qed

lemma vendor_mode_count:
  assumes "vendor_mode hosts es out" and "r \<in> set out"
  shows "VendorInfo_Count r =
           length (filter (\<lambda>a. AddrType a = ''mac'' \<and> Vendor a = VendorInfo_Name r)
             (concat (map Addresses hosts)))"
proof -
  from assms(1) have "set out = set (map vendor_entry (vendorMap_of hosts))"
    by (metis vendor_mode_mset mset_eq_setD)
  with assms(2) obtain k c where e: "(k, c) \<in> set (vendorMap_of hosts)" and r: "r = vendor_entry (k, c)"
    by auto
  from e have "map_of (vendorMap_of hosts) k = Some c"
    using vendorMap_of_distinct by simp
  then have "c = length (filter (\<lambda>a. AddrType a = ''mac'' \<and> Vendor a = k)
             (concat (map Addresses hosts)))"
    by (simp add: vendorMap_of_flat vendorMap_fold_lookup split: if_splits)
  with r show ?thesis
    by (simp add: vendor_entry_def)
qed

lemma vendor_fold_filter:
  "fold vendorMap_step as m = fold vendorMap_step (filter (\<lambda>a. AddrType a = ''mac'') as) m"
  by (induction as arbitrary: m) (simp_all add: vendorMap_step_def)

lemma vendor_two_empty:
  assumes "filter (\<lambda>a. AddrType a = ''mac'') (concat (map Addresses hosts)) = [a, b]"
    and "Vendor a = []" and "Vendor b = []"
  shows "vendorMap_of hosts = [([], 2)]"
proof -
  have "a \<in> set (filter (\<lambda>a. AddrType a = ''mac'') (concat (map Addresses hosts)))"
    and "b \<in> set (filter (\<lambda>a. AddrType a = ''mac'') (concat (map Addresses hosts)))"
    by (simp_all only: assms(1)) simp_all
  then have m: "AddrType a = ''mac''" "AddrType b = ''mac''"
    by simp_all
  have "vendorMap_of hosts = fold vendorMap_step [a, b] []"
    by (simp only: vendorMap_of_flat assms(1) [symmetric] vendor_fold_filter [symmetric])
  also have "\<dots> = [([], 2)]"
    by (simp add: vendorMap_step_def m assms(2,3))
  finally show ?thesis .
qed

text \<open>
  C7. Vendor mode emits one record for each distinct vendor string that occurs on an
  address of type \<^verbatim>\<open>mac\<close>, the empty string included, and the count of a record is the
  number of \<^verbatim>\<open>mac\<close> addresses of the document with that vendor string. A document
  whose \<^verbatim>\<open>mac\<close> addresses are exactly two, both with the empty vendor, yields the one
  record with the empty name and count 2.
\<close>

theorem vendor_mode_counts_with_empty_bucket:
  "(vendor_mode hosts es out \<longrightarrow>
      distinct (map VendorInfo_Name out) \<and>
      set (map VendorInfo_Name out) =
        Vendor ` {a \<in> set (concat (map Addresses hosts)). AddrType a = ''mac''} \<and>
      (\<forall>r \<in> set out.
         VendorInfo_Count r =
           length (filter (\<lambda>a. AddrType a = ''mac'' \<and> Vendor a = VendorInfo_Name r)
             (concat (map Addresses hosts))))) \<and>
   (vendor_mode hosts es out \<and>
    filter (\<lambda>a. AddrType a = ''mac'') (concat (map Addresses hosts)) = [a, b] \<and>
    Vendor a = [] \<and> Vendor b = [] \<longrightarrow>
      out = [\<lparr>VendorInfo_Name = [], VendorInfo_Count = 2\<rparr>])"
proof (intro conjI impI ballI)
  assume a: "vendor_mode hosts es out"
  then have "mset (map VendorInfo_Name out) = mset (map fst (vendorMap_of hosts))"
    by (metis vendor_mode_mset vendor_entry_Name mset_map)
  then have d: "distinct (map VendorInfo_Name out) = distinct (map fst (vendorMap_of hosts))"
    and s: "set (map VendorInfo_Name out) = set (map fst (vendorMap_of hosts))"
    by (metis mset_eq_imp_distinct_iff, metis mset_eq_setD)
  from d show "distinct (map VendorInfo_Name out)"
    by (simp add: vendorMap_of_distinct)
  from s show "set (map VendorInfo_Name out) =
        Vendor ` {a \<in> set (concat (map Addresses hosts)). AddrType a = ''mac''}"
    by (simp only: vendorMap_of_keys)
  fix r
  assume "r \<in> set out"
  with a show "VendorInfo_Count r =
           length (filter (\<lambda>a. AddrType a = ''mac'' \<and> Vendor a = VendorInfo_Name r)
             (concat (map Addresses hosts)))"
    by (rule vendor_mode_count)
next
  assume a: "vendor_mode hosts es out \<and>
    filter (\<lambda>a. AddrType a = ''mac'') (concat (map Addresses hosts)) = [a, b] \<and>
    Vendor a = [] \<and> Vendor b = []"
  then have "vendorMap_of hosts = [([], 2)]"
    using vendor_two_empty by blast
  moreover from a have "mset out = mset (map vendor_entry (vendorMap_of hosts))"
    using vendor_mode_mset by blast
  ultimately show "out = [\<lparr>VendorInfo_Name = [], VendorInfo_Count = 2\<rparr>]"
    by (simp add: vendor_entry_def)
qed

lemma example_M_vendorMap: "vendorMap_of [example_hostM1, example_hostM2] = [([], 2)]"
  by code_simp

lemma example_M_macs:
  "filter (\<lambda>a. AddrType a = ''mac'') (concat (map Addresses [example_hostM1, example_hostM2])) =
     [Addresses example_hostM1 ! 1, hd (Addresses example_hostM2)]"
  "Vendor (Addresses example_hostM1 ! 1) = []" "Vendor (hd (Addresses example_hostM2)) = []"
  by (simp_all add: example_hostM1_def example_hostM2_def)

theorem vendor_mode_counts_with_empty_bucket_witness:
  "vendor_mode [example_hostM1, example_hostM2] [([], 2)]
     [\<lparr>VendorInfo_Name = [], VendorInfo_Count = 2\<rparr>] \<and>
   filter (\<lambda>a. AddrType a = ''mac'') (concat (map Addresses [example_hostM1, example_hostM2])) =
     [Addresses example_hostM1 ! 1, hd (Addresses example_hostM2)] \<and>
   Vendor (Addresses example_hostM1 ! 1) = [] \<and> Vendor (hd (Addresses example_hostM2)) = [] \<and>
   length (filter (\<lambda>a. AddrType a = ''mac'' \<and> Vendor a = [])
     (concat (map Addresses [example_hostM1, example_hostM2]))) = 2"
proof -
  let ?r = "\<lparr>VendorInfo_Name = [], VendorInfo_Count = 2\<rparr>"
  have m: "vendor_mode [example_hostM1, example_hostM2] [([], 2)] [?r]"
    by (simp add: vendor_mode_def range_map_def sort_Slice_def vendor_entry_def
        example_M_vendorMap)
  note t = vendor_mode_counts_with_empty_bucket
    [where hosts = "[example_hostM1, example_hostM2]" and es = "[([], 2)]" and out = "[?r]"
       and a = "Addresses example_hostM1 ! 1" and b = "hd (Addresses example_hostM2)"]
  from t m have "length (filter (\<lambda>a. AddrType a = ''mac'' \<and> Vendor a = [])
     (concat (map Addresses [example_hostM1, example_hostM2]))) = 2"
    by simp
  with m example_M_macs show ?thesis
    by blast
qed

section \<open>The order of the emitted records\<close>

lemma sort_Slice_total: "sort_Slice (\<lambda>a b. f a > f b) xs (rev (sort_key f xs))"
  for f :: "'a \<Rightarrow> nat"
proof -
  have "sorted (map f (sort_key f xs))"
    by simp
  then have "sorted_wrt (\<lambda>a b. f a \<le> f b) (sort_key f xs)"
    by (simp only: sorted_map)
  then have "sorted_wrt (\<lambda>a b. f b \<le> f a) (rev (sort_key f xs))"
    by (simp add: sorted_wrt_rev)
  then show ?thesis
    by (simp add: sort_Slice_def not_less)
qed

text \<open>
  C2, the counterexample. Host A has 22/tcp and then 80/tcp open, so the keys are first
  seen in this order and both records have count 1. The \<^verbatim>\<open>range\<close> loop over the map may
  visit 80/tcp first, and then the output lists 80/tcp before 22/tcp; in another run it
  may visit 22/tcp first, and the output of the same input is in the other order.
\<close>

theorem port_mode_tie_order_counterexample:
  "map fst (portMap_of [example_hostA]) = [''22/tcp'', ''80/tcp''] \<and>
   port_mode [example_hostA]
     [(''80/tcp'', \<lparr>PortInfo_Key = ''80/tcp'', PortInfo_Service = ''http'', PortInfo_Count = 1\<rparr>),
      (''22/tcp'', \<lparr>PortInfo_Key = ''22/tcp'', PortInfo_Service = ''ssh'', PortInfo_Count = 1\<rparr>)]
     [\<lparr>PortInfo_Key = ''80/tcp'', PortInfo_Service = ''http'', PortInfo_Count = 1\<rparr>,
      \<lparr>PortInfo_Key = ''22/tcp'', PortInfo_Service = ''ssh'', PortInfo_Count = 1\<rparr>] \<and>
   port_mode [example_hostA]
     [(''22/tcp'', \<lparr>PortInfo_Key = ''22/tcp'', PortInfo_Service = ''ssh'', PortInfo_Count = 1\<rparr>),
      (''80/tcp'', \<lparr>PortInfo_Key = ''80/tcp'', PortInfo_Service = ''http'', PortInfo_Count = 1\<rparr>)]
     [\<lparr>PortInfo_Key = ''22/tcp'', PortInfo_Service = ''ssh'', PortInfo_Count = 1\<rparr>,
      \<lparr>PortInfo_Key = ''80/tcp'', PortInfo_Service = ''http'', PortInfo_Count = 1\<rparr>]"
proof -
  have m: "portMap_of [example_hostA] =
     [(''22/tcp'', \<lparr>PortInfo_Key = ''22/tcp'', PortInfo_Service = ''ssh'', PortInfo_Count = 1\<rparr>),
      (''80/tcp'', \<lparr>PortInfo_Key = ''80/tcp'', PortInfo_Service = ''http'', PortInfo_Count = 1\<rparr>)]"
    by code_simp
  show ?thesis
    by (simp add: m port_mode_def range_map_def sort_Slice_def PortInfo_less_def)
qed

text \<open>
  C2, as amended. In every mode the emitted records are in non-increasing order of
  their count, and they are the records that the aggregation collected, each as often
  as it was collected: the records of the matched hosts in hostname mode, one record
  for each key of the map in port mode and in vendor mode. No order is promised
  between two records with the same count: in port mode and in vendor mode it follows
  the order of the \<^verbatim>\<open>range\<close> loop over the map, in hostname mode it is what \<^verbatim>\<open>sort.Slice\<close>
  leaves.
\<close>

theorem modes_sorted_by_count:
  "(hostname_mode wp hosts results \<longrightarrow>
      sorted_wrt (\<lambda>a b. HostInfo_CountOpen b \<le> HostInfo_CountOpen a) results \<and>
      mset results = mset (hostname_results wp hosts)) \<and>
   (port_mode hosts es ports \<longrightarrow>
      sorted_wrt (\<lambda>a b. PortInfo_Count b \<le> PortInfo_Count a) ports \<and>
      mset ports = mset (map snd (portMap_of hosts))) \<and>
   (vendor_mode hosts vs vendors \<longrightarrow>
      sorted_wrt (\<lambda>a b. VendorInfo_Count b \<le> VendorInfo_Count a) vendors \<and>
      mset vendors = mset (map vendor_entry (vendorMap_of hosts)))"
proof (intro conjI impI)
  assume "hostname_mode wp hosts results"
  then show "sorted_wrt (\<lambda>a b. HostInfo_CountOpen b \<le> HostInfo_CountOpen a) results"
    and "mset results = mset (hostname_results wp hosts)"
    by (simp_all add: hostname_mode_def sort_Slice_def HostInfo_less_def not_less)
next
  assume "port_mode hosts es ports"
  then show "sorted_wrt (\<lambda>a b. PortInfo_Count b \<le> PortInfo_Count a) ports"
    and "mset ports = mset (map snd (portMap_of hosts))"
    by (simp_all add: port_mode_def range_map_def sort_Slice_def PortInfo_less_def not_less)
next
  assume "vendor_mode hosts vs vendors"
  then show "sorted_wrt (\<lambda>a b. VendorInfo_Count b \<le> VendorInfo_Count a) vendors"
    and "mset vendors = mset (map vendor_entry (vendorMap_of hosts))"
    by (simp_all add: vendor_mode_def range_map_def sort_Slice_def VendorInfo_less_def not_less)
qed

lemma example_AB_hostname_mode:
  "hostname_mode [] [example_hostA, example_hostB] (hostname_results [] [example_hostA, example_hostB])"
  unfolding hostname_mode_def sort_Slice_def example_AB_results
  by (simp add: HostInfo_less_def)

lemma example_M_vendor_mode:
  "vendor_mode [example_hostM1, example_hostM2] [([], 2)]
     [\<lparr>VendorInfo_Name = [], VendorInfo_Count = 2\<rparr>]"
  by (simp add: vendor_mode_def range_map_def sort_Slice_def vendor_entry_def example_M_vendorMap)

theorem modes_sorted_by_count_witness:
  "hostname_mode [] [example_hostA, example_hostB] (hostname_results [] [example_hostA, example_hostB]) \<and>
   map HostInfo_CountOpen (hostname_results [] [example_hostA, example_hostB]) = [2, 1] \<and>
   sorted_wrt (\<lambda>a b. HostInfo_CountOpen b \<le> HostInfo_CountOpen a)
     (hostname_results [] [example_hostA, example_hostB]) \<and>
   port_mode [example_hostA, example_hostB]
     [(''80/tcp'', \<lparr>PortInfo_Key = ''80/tcp'', PortInfo_Service = ''http'', PortInfo_Count = 1\<rparr>),
      (''22/tcp'', \<lparr>PortInfo_Key = ''22/tcp'', PortInfo_Service = ''ssh'', PortInfo_Count = 2\<rparr>)]
     [\<lparr>PortInfo_Key = ''22/tcp'', PortInfo_Service = ''ssh'', PortInfo_Count = 2\<rparr>,
      \<lparr>PortInfo_Key = ''80/tcp'', PortInfo_Service = ''http'', PortInfo_Count = 1\<rparr>] \<and>
   sorted_wrt (\<lambda>a b. PortInfo_Count b \<le> PortInfo_Count a)
     [\<lparr>PortInfo_Key = ''22/tcp'', PortInfo_Service = ''ssh'', PortInfo_Count = 2\<rparr>,
      \<lparr>PortInfo_Key = ''80/tcp'', PortInfo_Service = ''http'', PortInfo_Count = 1\<rparr>] \<and>
   vendor_mode [example_hostM1, example_hostM2] [([], 2)]
     [\<lparr>VendorInfo_Name = [], VendorInfo_Count = 2\<rparr>] \<and>
   mset [\<lparr>VendorInfo_Name = [], VendorInfo_Count = 2\<rparr>] =
     mset (map vendor_entry (vendorMap_of [example_hostM1, example_hostM2]))"
proof -
  let ?r = "\<lparr>PortInfo_Key = ''22/tcp'', PortInfo_Service = ''ssh'', PortInfo_Count = 2\<rparr>"
  let ?s = "\<lparr>PortInfo_Key = ''80/tcp'', PortInfo_Service = ''http'', PortInfo_Count = 1\<rparr>"
  let ?v = "\<lparr>VendorInfo_Name = [], VendorInfo_Count = 2\<rparr>"
  note h = modes_sorted_by_count
    [where wp = "[]" and hosts = "[example_hostA, example_hostB]"
       and results = "hostname_results [] [example_hostA, example_hostB]"]
  note p = modes_sorted_by_count
    [where hosts = "[example_hostA, example_hostB]"
       and es = "[(''80/tcp'', ?s), (''22/tcp'', ?r)]" and ports = "[?r, ?s]"]
  note v = modes_sorted_by_count
    [where hosts = "[example_hostM1, example_hostM2]" and vs = "[([], 2)]" and vendors = "[?v]"]
  from h example_AB_hostname_mode
  have 1: "sorted_wrt (\<lambda>a b. HostInfo_CountOpen b \<le> HostInfo_CountOpen a)
     (hostname_results [] [example_hostA, example_hostB])"
    by blast
  have 2: "map HostInfo_CountOpen (hostname_results [] [example_hostA, example_hostB]) = [2, 1]"
    by (simp add: example_AB_results)
  from p example_AB_port_mode
  have 3: "sorted_wrt (\<lambda>a b. PortInfo_Count b \<le> PortInfo_Count a) [?r, ?s]"
    by blast
  from v example_M_vendor_mode
  have 4: "mset [?v] = mset (map vendor_entry (vendorMap_of [example_hostM1, example_hostM2]))"
    by blast
  from 1 2 3 4 example_AB_hostname_mode example_AB_port_mode example_M_vendor_mode
  show ?thesis
    by blast
qed

section \<open>The choice of the mode\<close>

lemma hostname_mode_total: "\<exists>out. hostname_mode wp hosts out"
  unfolding hostname_mode_def HostInfo_less_def using sort_Slice_total by blast

lemma port_mode_total: "\<exists>out. port_mode hosts (portMap_of hosts) out"
  unfolding port_mode_def PortInfo_less_def range_map_def using sort_Slice_total by blast

lemma vendor_mode_total: "\<exists>out. vendor_mode hosts (vendorMap_of hosts) out"
  unfolding vendor_mode_def VendorInfo_less_def range_map_def using sort_Slice_total by blast

lemma main_run_total:
  "\<exists>output. main_run flags nmap
     \<lparr>range_portMap = portMap_of (Hosts nmap), range_vendorMap = vendorMap_of (Hosts nmap)\<rparr> output"
proof -
  obtain hs where hs: "hostname_mode (wherePorts flags) (Hosts nmap) hs"
    using hostname_mode_total by blast
  obtain ps where ps: "port_mode (Hosts nmap) (portMap_of (Hosts nmap)) ps"
    using port_mode_total by blast
  obtain vs where vs: "vendor_mode (Hosts nmap) (vendorMap_of (Hosts nmap)) vs"
    using vendor_mode_total by blast
  let ?rt = "\<lparr>range_portMap = portMap_of (Hosts nmap), range_vendorMap = vendorMap_of (Hosts nmap)\<rparr>"
  let ?out = "if showHostnames flags then Some (HostReport hs)
              else if showPorts flags then Some (PortReport ps)
              else if showVendors flags then Some (VendorReport vs) else None"
  have "main_run flags nmap ?rt ?out"
    using hs ps vs by (simp add: main_run_def)
  then show ?thesis ..
qed

text \<open>
  C8. For every combination of the three mode flags a run of \<^verbatim>\<open>main\<close> ends with the
  output of exactly one pipeline, or with none: with \<^verbatim>\<open>-hostname\<close> set the output is a
  result of hostname mode whatever the other two flags are; otherwise with \<^verbatim>\<open>-port\<close> set
  it is a result of port mode; otherwise with \<^verbatim>\<open>-vendor\<close> set it is a result of vendor
  mode; with no mode flag set nothing is written. In each of these cases a run exists:
  no combination of flags makes \<^verbatim>\<open>main\<close> fail once the document is decoded.
\<close>

theorem main_first_set_flag_wins:
  "main_run flags nmap rt output =
     (if showHostnames flags then
        (\<exists>results. output = Some (HostReport results) \<and>
           hostname_mode (wherePorts flags) (Hosts nmap) results)
      else if showPorts flags then
        (\<exists>ports. output = Some (PortReport ports) \<and>
           port_mode (Hosts nmap) (range_portMap rt) ports)
      else if showVendors flags then
        (\<exists>vendors. output = Some (VendorReport vendors) \<and>
           vendor_mode (Hosts nmap) (range_vendorMap rt) vendors)
      else output = None) \<and>
   (\<exists>rt' output'. main_run flags nmap rt' output')"
proof
  show "main_run flags nmap rt output =
     (if showHostnames flags then
        (\<exists>results. output = Some (HostReport results) \<and>
           hostname_mode (wherePorts flags) (Hosts nmap) results)
      else if showPorts flags then
        (\<exists>ports. output = Some (PortReport ports) \<and>
           port_mode (Hosts nmap) (range_portMap rt) ports)
      else if showVendors flags then
        (\<exists>vendors. output = Some (VendorReport vendors) \<and>
           vendor_mode (Hosts nmap) (range_vendorMap rt) vendors)
      else output = None)"
    by (simp add: main_run_def split: option.splits Report.splits)
  show "\<exists>rt' output'. main_run flags nmap rt' output'"
    using main_run_total by blast
qed

theorem main_first_set_flag_wins_witness:
  "main_run
     \<lparr>wherePorts = [], showHostnames = True, showPorts = True, showVendors = True,
      outputCSV = False\<rparr>
     \<lparr>Hosts = [example_hostA, example_hostB]\<rparr>
     \<lparr>range_portMap = [], range_vendorMap = []\<rparr>
     (Some (HostReport (hostname_results [] [example_hostA, example_hostB]))) \<and>
   main_run
     \<lparr>wherePorts = [], showHostnames = False, showPorts = True, showVendors = True,
      outputCSV = False\<rparr>
     \<lparr>Hosts = [example_hostA, example_hostB]\<rparr>
     \<lparr>range_portMap =
        [(''80/tcp'', \<lparr>PortInfo_Key = ''80/tcp'', PortInfo_Service = ''http'', PortInfo_Count = 1\<rparr>),
         (''22/tcp'', \<lparr>PortInfo_Key = ''22/tcp'', PortInfo_Service = ''ssh'', PortInfo_Count = 2\<rparr>)],
      range_vendorMap = []\<rparr>
     (Some (PortReport
        [\<lparr>PortInfo_Key = ''22/tcp'', PortInfo_Service = ''ssh'', PortInfo_Count = 2\<rparr>,
         \<lparr>PortInfo_Key = ''80/tcp'', PortInfo_Service = ''http'', PortInfo_Count = 1\<rparr>])) \<and>
   main_run
     \<lparr>wherePorts = [], showHostnames = False, showPorts = False, showVendors = True,
      outputCSV = False\<rparr>
     \<lparr>Hosts = [example_hostM1, example_hostM2]\<rparr>
     \<lparr>range_portMap = [], range_vendorMap = [([], 2)]\<rparr>
     (Some (VendorReport [\<lparr>VendorInfo_Name = [], VendorInfo_Count = 2\<rparr>])) \<and>
   main_run
     \<lparr>wherePorts = [], showHostnames = False, showPorts = False, showVendors = False,
      outputCSV = False\<rparr>
     \<lparr>Hosts = [example_hostA, example_hostB]\<rparr>
     \<lparr>range_portMap = [], range_vendorMap = []\<rparr>
     None"
proof (intro conjI)
  show "main_run
     \<lparr>wherePorts = [], showHostnames = True, showPorts = True, showVendors = True,
      outputCSV = False\<rparr>
     \<lparr>Hosts = [example_hostA, example_hostB]\<rparr>
     \<lparr>range_portMap = [], range_vendorMap = []\<rparr>
     (Some (HostReport (hostname_results [] [example_hostA, example_hostB])))"
    using example_AB_hostname_mode
    by (simp add: main_first_set_flag_wins)
  show "main_run
     \<lparr>wherePorts = [], showHostnames = False, showPorts = True, showVendors = True,
      outputCSV = False\<rparr>
     \<lparr>Hosts = [example_hostA, example_hostB]\<rparr>
     \<lparr>range_portMap =
        [(''80/tcp'', \<lparr>PortInfo_Key = ''80/tcp'', PortInfo_Service = ''http'', PortInfo_Count = 1\<rparr>),
         (''22/tcp'', \<lparr>PortInfo_Key = ''22/tcp'', PortInfo_Service = ''ssh'', PortInfo_Count = 2\<rparr>)],
      range_vendorMap = []\<rparr>
     (Some (PortReport
        [\<lparr>PortInfo_Key = ''22/tcp'', PortInfo_Service = ''ssh'', PortInfo_Count = 2\<rparr>,
         \<lparr>PortInfo_Key = ''80/tcp'', PortInfo_Service = ''http'', PortInfo_Count = 1\<rparr>]))"
    using example_AB_port_mode
    by (simp add: main_first_set_flag_wins)
  show "main_run
     \<lparr>wherePorts = [], showHostnames = False, showPorts = False, showVendors = True,
      outputCSV = False\<rparr>
     \<lparr>Hosts = [example_hostM1, example_hostM2]\<rparr>
     \<lparr>range_portMap = [], range_vendorMap = [([], 2)]\<rparr>
     (Some (VendorReport [\<lparr>VendorInfo_Name = [], VendorInfo_Count = 2\<rparr>]))"
    using example_M_vendor_mode
    by (simp add: main_first_set_flag_wins)
  show "main_run
     \<lparr>wherePorts = [], showHostnames = False, showPorts = False, showVendors = False,
      outputCSV = False\<rparr>
     \<lparr>Hosts = [example_hostA, example_hostB]\<rparr>
     \<lparr>range_portMap = [], range_vendorMap = []\<rparr>
     None"
    by (simp add: main_first_set_flag_wins)
qed

section \<open>Port mode: when the count is the number of hosts\<close>

lemma digit_char_mem: "d < 10 \<Longrightarrow> digit_char d \<in> set ''0123456789''"
  unfolding digit_char_def by (rule nth_mem) simp

lemma digit_char_inj: "a < 10 \<Longrightarrow> b < 10 \<Longrightarrow> digit_char a = digit_char b \<Longrightarrow> a = b"
proof -
  assume a: "a < 10" and b: "b < 10" and e: "digit_char a = digit_char b"
  have d: "distinct ''0123456789''"
    by simp
  have "a < length ''0123456789''" and "b < length ''0123456789''"
    using a b by simp_all
  with d e show "a = b"
    unfolding digit_char_def by (simp only: nth_eq_iff_index_eq)
qed

lemma utoa_not_Nil: "utoa n \<noteq> []"
  by (subst utoa.simps) simp

lemma utoa_subset:
  assumes "\<And>d. d < 10 \<Longrightarrow> digit_char d \<in> D"
  shows "set (utoa n) \<subseteq> D"
proof (induction n rule: utoa.induct)
  case (1 n)
  show ?case
  proof (cases "n < 10")
    case True
    then have "utoa n = [digit_char n]"
      by (subst utoa.simps) simp
    with True assms [of n] show ?thesis
      by simp
  next
    case False
    then have u: "utoa n = utoa (n div 10) @ [digit_char (n mod 10)]"
      by (subst utoa.simps) simp
    have "digit_char (n mod 10) \<in> D"
      by (rule assms) simp
    with 1 [OF False] show ?thesis
      by (simp add: u)
  qed
qed

lemma utoa_digits: "set (utoa n) \<subseteq> set ''0123456789''"
  by (rule utoa_subset) (rule digit_char_mem)

lemma utoa_inj: "utoa n = utoa m \<Longrightarrow> n = m"
proof (induction n arbitrary: m rule: utoa.induct)
  case (1 n)
  show ?case
  proof (cases "n < 10")
    case n: True
    then have un: "utoa n = [digit_char n]"
      by (subst utoa.simps) simp
    show ?thesis
    proof (cases "m < 10")
      case True
      then have "utoa m = [digit_char m]"
        by (subst utoa.simps) simp
      with un 1(2) have "digit_char n = digit_char m"
        by simp
      with n True show ?thesis
        by (rule digit_char_inj)
    next
      case False
      then have "utoa m = utoa (m div 10) @ [digit_char (m mod 10)]"
        by (subst utoa.simps) simp
      with un 1(2) utoa_not_Nil [of "m div 10"] show ?thesis
        by simp
    qed
  next
    case n: False
    then have un: "utoa n = utoa (n div 10) @ [digit_char (n mod 10)]"
      by (subst utoa.simps) simp
    show ?thesis
    proof (cases "m < 10")
      case True
      then have "utoa m = [digit_char m]"
        by (subst utoa.simps) simp
      with un 1(2) utoa_not_Nil [of "n div 10"] show ?thesis
        by simp
    next
      case False
      then have "utoa m = utoa (m div 10) @ [digit_char (m mod 10)]"
        by (subst utoa.simps) simp
      with un 1(2) have e: "utoa (n div 10) = utoa (m div 10)"
        and d: "digit_char (n mod 10) = digit_char (m mod 10)"
        by simp_all
      from 1(1) [OF n e] have "n div 10 = m div 10" .
      moreover have "n mod 10 < 10" and "m mod 10 < 10"
        by simp_all
      then have "n mod 10 = m mod 10"
        using d by (rule digit_char_inj)
      ultimately show ?thesis
        by (metis div_mult_mod_eq)
    qed
  qed
qed

lemma Itoa_inj: "Itoa i = Itoa j \<Longrightarrow> i = j"
proof -
  assume e: "Itoa i = Itoa j"
  have minus: "CHR ''-'' \<notin> set (utoa n)" for n
    using utoa_digits [of n] by auto
  show "i = j"
  proof (cases "i < 0")
    case i: True
    show ?thesis
    proof (cases "j < 0")
      case True
      with i e have "utoa (nat (- i)) = utoa (nat (- j))"
        by (simp add: Itoa_def)
      then have "nat (- i) = nat (- j)"
        by (rule utoa_inj)
      with i True show ?thesis
        by simp
    next
      case False
      with i e have "CHR ''-'' # utoa (nat (- i)) = utoa (nat j)"
        by (simp add: Itoa_def)
      then have "CHR ''-'' \<in> set (utoa (nat j))"
        by (metis list.set_intros(1))
      with minus show ?thesis
        by blast
    qed
  next
    case i: False
    show ?thesis
    proof (cases "j < 0")
      case True
      with i e have "utoa (nat i) = CHR ''-'' # utoa (nat (- j))"
        by (simp add: Itoa_def)
      then have "CHR ''-'' \<in> set (utoa (nat i))"
        by (metis list.set_intros(1))
      with minus show ?thesis
        by blast
    next
      case False
      with i e have "utoa (nat i) = utoa (nat j)"
        by (simp add: Itoa_def)
      then have "nat i = nat j"
        by (rule utoa_inj)
      with i False show ?thesis
        by simp
    qed
  qed
qed

lemma Itoa_no_slash: "CHR ''/'' \<notin> set (Itoa i)"
proof -
  have "CHR ''/'' \<notin> set (utoa n)" for n
    using utoa_digits [of n] by auto
  then show ?thesis
    by (simp add: Itoa_def)
qed

lemma append_sep_inj:
  "c \<notin> set a \<Longrightarrow> c \<notin> set b \<Longrightarrow> a @ c # s = b @ c # t \<Longrightarrow> a = b \<and> s = t"
proof (induction a arbitrary: b)
  case Nil
  then show ?case by (cases b) auto
next
  case (Cons x a)
  then show ?case by (cases b) auto
qed

lemma port_key_inj:
  "(port_key p = port_key q) = (PortID p = PortID q \<and> Protocol p = Protocol q)"
proof
  assume "port_key p = port_key q"
  then have "Itoa (PortID p) @ CHR ''/'' # Protocol p = Itoa (PortID q) @ CHR ''/'' # Protocol q"
    by (simp add: port_key_def)
  then have "Itoa (PortID p) = Itoa (PortID q) \<and> Protocol p = Protocol q"
    by (intro append_sep_inj [of "CHR ''/''"] Itoa_no_slash)
  then show "PortID p = PortID q \<and> Protocol p = Protocol q"
    by (simp add: Itoa_inj)
next
  assume "PortID p = PortID q \<and> Protocol p = Protocol q"
  then show "port_key p = port_key q"
    by (simp add: port_key_def)
qed

lemma count_once:
  "distinct (map f xs) \<Longrightarrow> length (filter (\<lambda>x. f x = k) xs) = (if k \<in> f ` set xs then 1 else 0)"
  by (induction xs) (auto simp: filter_empty_conv)

lemma host_count_once:
  assumes "distinct (map port_key (filter isOpen ps))"
  shows "length (filter (\<lambda>p. State_State (State p) = ''open'' \<and> port_key p = k) ps) =
         (if list_ex (\<lambda>p. State_State (State p) = ''open'' \<and> port_key p = k) ps then 1 else 0)"
proof -
  have "filter (\<lambda>p. State_State (State p) = ''open'' \<and> port_key p = k) ps =
        filter (\<lambda>p. port_key p = k) (filter isOpen ps)"
    by (simp add: isOpen_def conj_commute)
  moreover have "list_ex (\<lambda>p. State_State (State p) = ''open'' \<and> port_key p = k) ps =
        (k \<in> port_key ` set (filter isOpen ps))"
    by (auto simp: list_ex_iff isOpen_def)
  ultimately show ?thesis
    using count_once [OF assms, of k] by simp
qed

lemma occurrences_are_hosts:
  assumes "\<forall>h \<in> set hosts. distinct (map port_key (filter isOpen (Ports h)))"
  shows "length (filter (\<lambda>p. State_State (State p) = ''open'' \<and> port_key p = k)
           (concat (map Ports hosts))) =
         length (filter (\<lambda>h. list_ex (\<lambda>p. State_State (State p) = ''open'' \<and> port_key p = k)
           (Ports h)) hosts)"
  using assms by (induction hosts) (simp_all add: host_count_once)

text \<open>
  When no host lists the same open port id and protocol twice, the count of every
  emitted record is the number of hosts that have a port with the id and the protocol
  of its key in state \<^verbatim>\<open>open\<close>.
\<close>

lemma port_mode_count_is_host_count:
  assumes "port_mode hosts es out" and "r \<in> set out"
    and "\<forall>h \<in> set hosts. distinct (map (\<lambda>p. (PortID p, Protocol p)) (filter isOpen (Ports h)))"
  shows "\<exists>i pr. PortInfo_Key r = Itoa i @ ''/'' @ pr \<and>
           PortInfo_Count r =
             length (filter (\<lambda>h. list_ex (\<lambda>p. State_State (State p) = ''open'' \<and>
                                           PortID p = i \<and> Protocol p = pr) (Ports h)) hosts)"
proof -
  from assms(1,2) obtain k where k: "map_of (portMap_of hosts) k = Some r"
    using port_mode_lookup by blast
  note e = portMap_of_entry [OF k]
  from e(2) obtain p0 where p0: "p0 \<in> set (concat (map Ports hosts))"
    "State_State (State p0) = ''open''" "port_key p0 = k"
    unfolding filter_empty_conv by blast
  have same: "(port_key p = k) = (PortID p = PortID p0 \<and> Protocol p = Protocol p0)" for p
    using port_key_inj [of p p0] p0(3) by simp
  have d: "\<forall>h \<in> set hosts. distinct (map port_key (filter isOpen (Ports h)))"
  proof
    fix h
    assume "h \<in> set hosts"
    with assms(3) have "distinct (map (\<lambda>p. (PortID p, Protocol p)) (filter isOpen (Ports h)))"
      by blast
    then have "inj_on (\<lambda>p. (PortID p, Protocol p)) (set (filter isOpen (Ports h)))"
      and dd: "distinct (filter isOpen (Ports h))"
      by (simp_all only: distinct_map)
    then have "inj_on port_key (set (filter isOpen (Ports h)))"
      unfolding inj_on_def port_key_inj by blast
    with dd show "distinct (map port_key (filter isOpen (Ports h)))"
      by (simp only: distinct_map simp_thms)
  qed
  have "PortInfo_Count r =
      length (filter (\<lambda>p. State_State (State p) = ''open'' \<and> port_key p = k)
        (concat (map Ports hosts)))"
    by (rule e(4))
  also have "\<dots> = length (filter (\<lambda>h. list_ex
        (\<lambda>p. State_State (State p) = ''open'' \<and> port_key p = k) (Ports h)) hosts)"
    by (rule occurrences_are_hosts [OF d])
  also have "\<dots> = length (filter (\<lambda>h. list_ex (\<lambda>p. State_State (State p) = ''open'' \<and>
        PortID p = PortID p0 \<and> Protocol p = Protocol p0) (Ports h)) hosts)"
    by (simp only: same)
  finally have "PortInfo_Count r =
      length (filter (\<lambda>h. list_ex (\<lambda>p. State_State (State p) = ''open'' \<and>
        PortID p = PortID p0 \<and> Protocol p = Protocol p0) (Ports h)) hosts)" .
  moreover from e(1) p0(3) have "PortInfo_Key r = Itoa (PortID p0) @ ''/'' @ Protocol p0"
    by (simp add: port_key_def)
  ultimately show ?thesis
    by blast
qed

section \<open>Port mode: a port listed twice in one host\<close>

text \<open>
  C1. The comment on \<^verbatim>\<open>PortInfo.Count\<close> says that it is the number of hosts that have the
  port open, and so it is on the documents of \<open>port_mode_count_is_host_count\<close>. But the
  loop increments the count once for every open port element, so a host that lists
  22/tcp open twice is counted twice: the document with this one host yields the
  record of 22/tcp with count 2, and one host has 22/tcp open.
\<close>

theorem port_mode_counts_duplicate_port_twice:
  "portMap_of [example_hostDup] =
     [(''22/tcp'', \<lparr>PortInfo_Key = ''22/tcp'', PortInfo_Service = ''ssh'', PortInfo_Count = 2\<rparr>)] \<and>
   port_mode [example_hostDup] (portMap_of [example_hostDup])
     [\<lparr>PortInfo_Key = ''22/tcp'', PortInfo_Service = ''ssh'', PortInfo_Count = 2\<rparr>] \<and>
   length (filter (\<lambda>h. list_ex (\<lambda>p. State_State (State p) = ''open'' \<and> PortID p = 22 \<and>
                                  Protocol p = ''tcp'') (Ports h))
             [example_hostDup]) = 1"
proof -
  have 1: "portMap_of [example_hostDup] =
     [(''22/tcp'', \<lparr>PortInfo_Key = ''22/tcp'', PortInfo_Service = ''ssh'', PortInfo_Count = 2\<rparr>)]"
    by code_simp
  have 2: "length (filter (\<lambda>h. list_ex (\<lambda>p. State_State (State p) = ''open'' \<and> PortID p = 22 \<and>
                                  Protocol p = ''tcp'') (Ports h))
             [example_hostDup]) = 1"
    by (simp add: example_hostDup_def)
  have 3: "port_mode [example_hostDup] (portMap_of [example_hostDup])
     [\<lparr>PortInfo_Key = ''22/tcp'', PortInfo_Service = ''ssh'', PortInfo_Count = 2\<rparr>]"
    by (simp add: 1 port_mode_def range_map_def sort_Slice_def)
  from 1 2 3 show ?thesis
    by blast
qed

section \<open>Ports that are not open\<close>

text \<open>
  No mode reads a port whose state is not \<^verbatim>\<open>open\<close>: removing these ports from every
  host changes neither \<^verbatim>\<open>results\<close> nor \<^verbatim>\<open>portMap\<close> nor \<^verbatim>\<open>vendorMap\<close>.
\<close>

lemma portMap_fold_open:
  "fold portMap_step ps m = fold portMap_step (filter isOpen ps) m"
  by (induction ps arbitrary: m) (simp_all add: portMap_step_def isOpen_def)

lemma closed_ports_never_contribute:
  "hostname_results wp (map (\<lambda>h. h\<lparr>Ports := filter isOpen (Ports h)\<rparr>) hosts) =
     hostname_results wp hosts"
  "portMap_of (map (\<lambda>h. h\<lparr>Ports := filter isOpen (Ports h)\<rparr>) hosts) = portMap_of hosts"
  "vendorMap_of (map (\<lambda>h. h\<lparr>Ports := filter isOpen (Ports h)\<rparr>) hosts) = vendorMap_of hosts"
proof -
  have s: "filter (\<lambda>p. isOpen p \<and> selected wp p) ps = filter (selected wp) ps" for ps
    by (auto simp: selected_isOpen intro: filter_cong)
  have "hostname_results wp [h\<lparr>Ports := filter isOpen (Ports h)\<rparr>] = hostname_results wp [h]"
    for h
    by (simp add: hostname_results_single s host_hostname_def)
  then have "concat (map (\<lambda>h. hostname_results wp [h])
               (map (\<lambda>h. h\<lparr>Ports := filter isOpen (Ports h)\<rparr>) hosts)) =
             concat (map (\<lambda>h. hostname_results wp [h]) hosts)"
    by (simp add: comp_def)
  then show "hostname_results wp (map (\<lambda>h. h\<lparr>Ports := filter isOpen (Ports h)\<rparr>) hosts) =
     hostname_results wp hosts"
    by (simp only: hostname_results_concat [symmetric])
  have "concat (map Ports (map (\<lambda>h. h\<lparr>Ports := filter isOpen (Ports h)\<rparr>) hosts)) =
        filter isOpen (concat (map Ports hosts))"
    by (simp add: filter_concat comp_def)
  then show "portMap_of (map (\<lambda>h. h\<lparr>Ports := filter isOpen (Ports h)\<rparr>) hosts) =
     portMap_of hosts"
    by (simp only: portMap_of_flat portMap_fold_open [symmetric])
  show "vendorMap_of (map (\<lambda>h. h\<lparr>Ports := filter isOpen (Ports h)\<rparr>) hosts) =
     vendorMap_of hosts"
    by (simp add: vendorMap_of_flat comp_def)
qed

end
